theory Spec2Isabelle
  imports Main "HOL-Library.Word" "HOL-Library.Product_Lexorder" "HOL-Library.Multiset"
begin

section \<open>Coordinates, blocks and grids\<close>

text \<open>
  A shallow embedding of \<^verbatim>\<open>python/craftassist/tasks.py\<close>. World coordinates are
  \<open>(x, y, z)\<close> triples, grid indices are \<open>(y, z, x)\<close> triples (the axis order of the
  numpy arrays), an \<open>idm\<close> is a (block-type, variant) pair. Python integers are \<open>int\<close>;
  the attempts array has dtype uint8 and is an \<open>8 word\<close> per cell.
\<close>

type_synonym xyz = "int \<times> int \<times> int"
type_synonym yzx = "int \<times> int \<times> int"
type_synonym idm = "int \<times> int"
type_synonym block = "xyz \<times> idm"
type_synonym memid = string
type_synonym triple = "memid \<times> string \<times> string"

datatype error =
  TypeError | IndexError | KeyError | ValueError | AttributeError
  | AssertionError | StopIteration | CantStepException

text \<open>
  A Python call either returns or raises; the mutations made before a raise persist, so
  both outcomes carry the state that was reached.
\<close>

datatype 's result = Return 's | Raise error 's

fun state_of :: "'s result \<Rightarrow> 's" where
  "state_of (Return s) = s"
| "state_of (Raise e s) = s"

fun returns :: "'s result \<Rightarrow> bool" where
  "returns (Return s) = True"
| "returns (Raise e s) = False"

fun addv :: "xyz \<Rightarrow> xyz \<Rightarrow> xyz" where
  "addv (a, b, c) (d, e, f) = (a + d, b + e, c + f)"

fun subv :: "xyz \<Rightarrow> xyz \<Rightarrow> xyz" where
  "subv (a, b, c) (d, e, f) = (a - d, b - e, c - f)"

fun dotv :: "xyz \<Rightarrow> xyz \<Rightarrow> int" where
  "dotv (a, b, c) (d, e, f) = a * d + b * e + c * f"

text \<open>The index permutations \<^verbatim>\<open>v[[1, 2, 0]]\<close> (xyz to yzx) and \<^verbatim>\<open>v[[2, 0, 1]]\<close> (yzx to xyz).\<close>

fun to_yzx :: "xyz \<Rightarrow> yzx" where
  "to_yzx (x, y, z) = (y, z, x)"

fun to_xyz :: "yzx \<Rightarrow> xyz" where
  "to_xyz (y, z, x) = (x, y, z)"

text \<open>
  Modelled from the spec: \<^verbatim>\<open>util.manhat_dist\<close> is not in src; the spec calls it the
  Manhattan distance between two coordinates.
\<close>

fun manhat_dist :: "xyz \<Rightarrow> xyz \<Rightarrow> int" where
  "manhat_dist (a, b, c) (d, e, f) = \<bar>a - d\<bar> + \<bar>b - e\<bar> + \<bar>c - f\<bar>"

text \<open>Modelled from the spec: \<^verbatim>\<open>util.strip_idmeta\<close> (not in src) keeps the coordinates of a block list.\<close>

definition strip_idmeta :: "block list \<Rightarrow> xyz list" where
  "strip_idmeta blocks = map fst blocks"

text \<open>
  A dense numpy array of shape \<open>(sy, sz, sx, 2)\<close>: its shape and the \<open>idm\<close> at each index.
  Only indices inside the shape are ever read.
\<close>

record grid =
  shape :: "nat \<times> nat \<times> nat"
  cells :: "yzx \<Rightarrow> idm"

text \<open>All indices of a shape in row-major order, the order of \<^verbatim>\<open>np.argwhere\<close>.\<close>

definition indices :: "nat \<times> nat \<times> nat \<Rightarrow> yzx list" where
  "indices s = (case s of (sy, sz, sx) \<Rightarrow>
     concat (map (\<lambda>y. concat (map (\<lambda>z. map (\<lambda>x. (int y, int z, int x)) [0..<sx]) [0..<sz])) [0..<sy]))"

definition argwhere :: "nat \<times> nat \<times> nat \<Rightarrow> (yzx \<Rightarrow> bool) \<Rightarrow> yzx list" where
  "argwhere s msk = filter msk (indices s)"

definition np_any :: "nat \<times> nat \<times> nat \<Rightarrow> (yzx \<Rightarrow> bool) \<Rightarrow> bool" where
  "np_any s msk = list_ex msk (indices s)"

definition np_all :: "nat \<times> nat \<times> nat \<Rightarrow> (yzx \<Rightarrow> bool) \<Rightarrow> bool" where
  "np_all s msk = list_all msk (indices s)"

text \<open>Componentwise minimum of a non-empty coordinate list (\<^verbatim>\<open>np.min(..., axis=0)\<close>).\<close>

fun minv :: "xyz \<Rightarrow> xyz \<Rightarrow> xyz" where
  "minv (a, b, c) (d, e, f) = (min a d, min b e, min c f)"

fun maxv :: "xyz \<Rightarrow> xyz \<Rightarrow> xyz" where
  "maxv (a, b, c) (d, e, f) = (max a d, max b e, max c f)"

definition np_min :: "xyz list \<Rightarrow> error + xyz" where
  "np_min ps = (case ps of [] \<Rightarrow> Inl ValueError | p # qs \<Rightarrow> Inr (fold minv qs p))"

definition np_max :: "xyz list \<Rightarrow> error + xyz" where
  "np_max ps = (case ps of [] \<Rightarrow> Inl ValueError | p # qs \<Rightarrow> Inr (fold maxv qs p))"

text \<open>
  Modelled from the spec: \<^verbatim>\<open>build_utils.blocks_list_to_npy\<close> is not in src. The spec has
  it convert the sparse list of (coordinate, idm) pairs into the dense grid over the
  list's bounding box, indexed (y, z, x); a cell no entry names holds block-type 0, and a
  later entry for a coordinate overwrites an earlier one. An empty list has no bounding
  box.
\<close>

definition blocks_list_to_npy :: "block list \<Rightarrow> error + grid" where
  "blocks_list_to_npy blocks =
     (case (np_min (strip_idmeta blocks), np_max (strip_idmeta blocks)) of
        (Inr (mx, my, mz), Inr (Mx, My, Mz)) \<Rightarrow>
          Inr \<lparr> shape = (nat (My - my + 1), nat (Mz - mz + 1), nat (Mx - mx + 1)),
                cells = fold (\<lambda>((x, y, z), bm) g. g((y - my, z - mz, x - mx) := bm)) blocks
                          (\<lambda>c. (0, 0)) \<rparr>
      | (Inl e, _) \<Rightarrow> Inl e
      | (_, Inl e) \<Rightarrow> Inl e)"

text \<open>
  Modelled from the spec: \<^verbatim>\<open>build_utils.npy_to_blocks_list\<close> is not in src. It is the
  converse conversion: the sparse list, in row-major order, of the cells that hold a block
  (block-type not 0), each at its world coordinate \<open>origin + (x, y, z)\<close>.
\<close>

definition npy_to_blocks_list :: "grid \<Rightarrow> xyz \<Rightarrow> block list" where
  "npy_to_blocks_list g org =
     map (\<lambda>c. (addv (to_xyz c) org, cells g c))
       (filter (\<lambda>c. fst (cells g c) \<noteq> 0) (indices (shape g)))"

section \<open>Tasks\<close>

text \<open>
  \<^verbatim>\<open>block_memory\<close> refers to a record of the memory collaborator that has an
  \<^verbatim>\<open>end_time\<close> attribute. \<^verbatim>\<open>Task.__init__\<close> never assigns the task's own
  \<^verbatim>\<open>end_time\<close>: \<open>None\<close> there is the missing attribute.
\<close>

record memory_record =
  stamped_end_time :: "int option"

record task =
  interrupted :: bool
  featurizer :: "nat option"
  finished :: bool
  name :: "string option"
  block_memory :: "memory_record option"
  undone :: bool
  memid :: "memid option"
  end_time :: "int option"

definition Task_init :: "nat option \<Rightarrow> task" where
  "Task_init f = \<lparr> interrupted = False, featurizer = f, finished = False, name = None,
     block_memory = None, undone = False, memid = None, end_time = None \<rparr>"

definition interrupt :: "'a task_scheme \<Rightarrow> 'a task_scheme" where
  "interrupt t = t\<lparr>interrupted := True\<rparr>"

definition check_finished :: "'a task_scheme \<Rightarrow> (bool \<times> 'a task_scheme) result" where
  "check_finished t =
     (if finished t then
        (case block_memory t of
           None \<Rightarrow> Return (finished t, t)
         | Some bm \<Rightarrow>
             (case end_time t of
                None \<Rightarrow> Raise AttributeError (finished t, t)
              | Some e \<Rightarrow>
                  Return (finished t, t\<lparr>block_memory := Some (bm\<lparr>stamped_end_time := Some e\<rparr>)\<rparr>)))
      else Return (finished t, t))"

record move = task +
  target :: xyz
  approx :: int
  path :: "xyz list option"
  replace :: "block list"

record build = task +
  embed :: bool
  schematic :: grid
  origin :: "xyz option"
  verbose :: bool
  force :: bool
  attempts :: "yzx \<Rightarrow> 8 word"
  fill_message :: bool
  schematic_memid :: "memid option"
  schematic_tags :: "(string \<times> string) list"
  giving_up_message_sent :: bool
  wait :: bool
  old_blocks_list :: "block list option"
  old_origin :: "xyz option"
  new_blocks :: "block list"

record destroy = task +
  destroy_schematic :: "block list"
  xyz_remaining :: "xyz list"
  dig_message :: bool
  destroyed_block_object_triples :: "triple list"

datatype task_obj = TMove move | TBuild build | TDestroy destroy

section \<open>The agent and its collaborators\<close>

text \<open>
  The game world \<open>'w\<close> and the semantic memory \<open>'m\<close> are collaborators outside
  tasks.py: their behaviour is a parameter, as are the tables of \<^verbatim>\<open>block_data\<close>.
  Memory nodes are named by their memid.
\<close>

datatype step_fn =
  step_pos_x | step_neg_x | step_pos_y | step_neg_y | step_pos_z | step_neg_z

record ('w, 'm) env =
  PASSABLE_BLOCKS :: "int list"
  BUILD_BLOCK_REPLACE_MAP :: "(int \<times> idm) list"
  BUILD_IGNORE_BLOCKS :: "int list"
  BUILD_INTERCHANGEABLE_PAIRS :: "(int \<times> int) list"
  pos :: "'w \<Rightarrow> xyz"
  block_at :: "'w \<Rightarrow> xyz \<Rightarrow> idm"
  dig :: "'w \<Rightarrow> xyz \<Rightarrow> 'w"
  place_block :: "'w \<Rightarrow> xyz \<Rightarrow> bool \<times> 'w"
  set_held_item :: "'w \<Rightarrow> idm \<Rightarrow> 'w"
  do_step :: "'w \<Rightarrow> step_fn \<Rightarrow> 'w"
  astar :: "'w \<Rightarrow> xyz \<Rightarrow> int \<Rightarrow> xyz list option"
  ground_height :: "'w \<Rightarrow> xyz \<Rightarrow> int"
  add_location :: "'m \<Rightarrow> xyz \<Rightarrow> memid \<times> 'm"
  update_recent_entities :: "'m \<Rightarrow> memid list \<Rightarrow> 'm"
  add_triple :: "'m \<Rightarrow> triple \<Rightarrow> 'm"
  get_triples :: "'m \<Rightarrow> memid option \<Rightarrow> string \<Rightarrow> memid option \<Rightarrow> triple list"
  get_block_object_ids_by_xyz :: "'m \<Rightarrow> xyz \<Rightarrow> memid list"
  get_block_object_by_xyz :: "'m \<Rightarrow> xyz \<Rightarrow> (memid \<times> xyz list) option"
  tag_block_object_from_schematic :: "'m \<Rightarrow> memid \<Rightarrow> memid \<Rightarrow> 'm"
  tag :: "'m \<Rightarrow> memid \<Rightarrow> string \<Rightarrow> 'm"

text \<open>Every call of a primitive that acts on the game world is also logged, in call order.\<close>

datatype call = Dig xyz | PlaceBlock xyz | SetHeldItem idm | Step step_fn

record ('w, 'm) agent =
  world :: 'w
  memory :: 'm
  task_stack :: "(task_obj \<times> memid option) list"
  pending_agent_placed_blocks :: "xyz list"
  chats :: "string list"
  calls :: "call list"

definition agent_dig :: "('w, 'm) env \<Rightarrow> ('w, 'm) agent \<Rightarrow> xyz \<Rightarrow> ('w, 'm) agent" where
  "agent_dig E ag p = ag\<lparr>world := dig E (world ag) p, calls := calls ag @ [Dig p]\<rparr>"

definition agent_place_block ::
  "('w, 'm) env \<Rightarrow> ('w, 'm) agent \<Rightarrow> xyz \<Rightarrow> bool \<times> ('w, 'm) agent" where
  "agent_place_block E ag p =
     (fst (place_block E (world ag) p),
      ag\<lparr>world := snd (place_block E (world ag) p), calls := calls ag @ [PlaceBlock p]\<rparr>)"

definition agent_set_held_item :: "('w, 'm) env \<Rightarrow> ('w, 'm) agent \<Rightarrow> idm \<Rightarrow> ('w, 'm) agent" where
  "agent_set_held_item E ag i =
     ag\<lparr>world := set_held_item E (world ag) i, calls := calls ag @ [SetHeldItem i]\<rparr>"

definition agent_step :: "('w, 'm) env \<Rightarrow> ('w, 'm) agent \<Rightarrow> step_fn \<Rightarrow> ('w, 'm) agent" where
  "agent_step E ag f = ag\<lparr>world := do_step E (world ag) f, calls := calls ag @ [Step f]\<rparr>"

definition send_chat :: "('w, 'm) agent \<Rightarrow> string \<Rightarrow> ('w, 'm) agent" where
  "send_chat ag s = ag\<lparr>chats := chats ag @ [s]\<rparr>"

definition task_stack_push ::
  "('w, 'm) agent \<Rightarrow> task_obj \<Rightarrow> memid option \<Rightarrow> ('w, 'm) agent" where
  "task_stack_push ag t parent_memid = ag\<lparr>task_stack := task_stack ag @ [(t, parent_memid)]\<rparr>"

text \<open>
  \<^verbatim>\<open>agent.get_blocks(x1, x2, y1, y2, z1, z2)\<close>: the region read as a grid indexed
  (y, z, x) from its lower corner.
\<close>

definition get_blocks ::
  "('w, 'm) env \<Rightarrow> 'w \<Rightarrow> int \<Rightarrow> int \<Rightarrow> int \<Rightarrow> int \<Rightarrow> int \<Rightarrow> int \<Rightarrow> grid" where
  "get_blocks E w x1 x2 y1 y2 z1 z2 =
     \<lparr> shape = (nat (y2 - y1 + 1), nat (z2 - z1 + 1), nat (x2 - x1 + 1)),
       cells = (\<lambda>c. block_at E w (addv (to_xyz c) (x1, y1, z1))) \<rparr>"

text \<open>
  Modelled from the spec: \<^verbatim>\<open>util.fill_idmeta\<close> is not in src; it pairs each coordinate
  of a cell list with the idm the world holds there.
\<close>

definition fill_idmeta :: "('w, 'm) env \<Rightarrow> ('w, 'm) agent \<Rightarrow> xyz list \<Rightarrow> block list" where
  "fill_idmeta E ag poss = map (\<lambda>p. (p, block_at E (world ag) p)) poss"

definition isin :: "int \<Rightarrow> int list \<Rightarrow> bool" where
  "isin v vs = (v \<in> set vs)"

section \<open>Move\<close>

text \<open>\<^verbatim>\<open>Move.STEP_FNS\<close>, in the dict's insertion order.\<close>

definition STEP_FNS :: "(xyz \<times> step_fn) list" where
  "STEP_FNS = [((1, 0, 0), step_pos_x), ((-1, 0, 0), step_neg_x), ((0, 1, 0), step_pos_y),
               ((0, -1, 0), step_neg_y), ((0, 0, 1), step_pos_z), ((0, 0, -1), step_neg_z)]"

text \<open>
  \<^verbatim>\<open>Move.__init__\<close>: the target is already a block position (\<^verbatim>\<open>util.to_block_pos\<close>
  rounds it, outside tasks.py); \<open>approx\<close> defaults to 1.
\<close>

definition Move_init :: "xyz \<Rightarrow> int option \<Rightarrow> nat option \<Rightarrow> move" where
  "Move_init tgt apx f =
     \<lparr> interrupted = False, featurizer = f, finished = False, name = None,
       block_memory = None, undone = False, memid = None, end_time = None,
       target = tgt, approx = (case apx of None \<Rightarrow> 1 | Some a \<Rightarrow> a),
       path = None, replace = [] \<rparr>"

text \<open>The loop over \<open>R\<close> that tries to put back the blocks dug out earlier.\<close>

fun replace_blocks ::
  "('w, 'm) env \<Rightarrow> block list \<Rightarrow> block list \<times> ('w, 'm) agent \<Rightarrow> block list \<times> ('w, 'm) agent" where
  "replace_blocks E [] (rep, ag) = (rep, ag)"
| "replace_blocks E ((p, i) # R) (rep, ag) =
     (let ag1 = agent_set_held_item E ag i;
          (ok, ag2) = agent_place_block E ag1 p
      in replace_blocks E R (if ok then rep else List.insert (p, i) rep, ag2))"

text \<open>The loop of \<^verbatim>\<open>handle_no_path\<close> that digs the blocks in the way.\<close>

fun dig_blocks ::
  "('w, 'm) env \<Rightarrow> block list \<Rightarrow> block list \<times> ('w, 'm) agent \<Rightarrow> block list \<times> ('w, 'm) agent" where
  "dig_blocks E [] (rep, ag) = (rep, ag)"
| "dig_blocks E ((bp, i) # bs) (rep, ag) =
     dig_blocks E bs (List.insert (bp, i) rep, agent_dig E ag bp)"

definition handle_no_path ::
  "('w, 'm) env \<Rightarrow> move \<Rightarrow> ('w, 'm) agent \<Rightarrow> move \<times> ('w, 'm) agent" where
  "handle_no_path E m ag =
     (let delta = subv (target m) (pos E (world ag)) in
      case filter (\<lambda>(vec, f). dotv delta vec > 0) STEP_FNS of
        [] \<Rightarrow> (m, ag)
      | (vec, f) # _ \<Rightarrow>
          (let newpos = addv (pos E (world ag)) vec;
               newpos_blocks =
                 (case newpos of (x, y, z) \<Rightarrow> get_blocks E (world ag) x x y (y + 1) z z);
               (rep, ag1) = dig_blocks E (npy_to_blocks_list newpos_blocks newpos) (replace m, ag)
           in (m\<lparr>replace := rep\<rparr>, agent_step E ag1 f)))"

text \<open>The bookkeeping of a finished Move that is tracked in memory.\<close>

definition Move_record_location :: "('w, 'm) env \<Rightarrow> move \<Rightarrow> memid \<Rightarrow> 'm \<Rightarrow> 'm" where
  "Move_record_location E m mid mem =
     (let (locmemid, mem1) = add_location E mem (target m);
          mem2 = update_recent_entities E mem1 [locmemid];
          mem3 = add_triple E mem2 (mid, ''task_effect_'', locmemid);
          chat_mem_triples = get_triples E mem3 None ''chat_effect_'' (Some mid)
      in case chat_mem_triples of
           [] \<Rightarrow> mem3
         | (chat_memid, _) # _ \<Rightarrow> add_triple E mem3 (chat_memid, ''chat_effect_'', locmemid))"

text \<open>
  Whether the cached path has to be recomputed; \<^verbatim>\<open>self.path[-1]\<close> of an empty list
  raises.
\<close>

definition path_stale :: "('w, 'm) env \<Rightarrow> move \<Rightarrow> ('w, 'm) agent \<Rightarrow> error + bool" where
  "path_stale E m ag =
     (case path m of
        None \<Rightarrow> Inr True
      | Some [] \<Rightarrow> Inl IndexError
      | Some (w # ws) \<Rightarrow> Inr (pos E (world ag) \<noteq> last (w # ws)))"

text \<open>The last four lines of \<^verbatim>\<open>Move.step\<close>: pop the waypoint and take one step.\<close>

definition follow_path ::
  "('w, 'm) env \<Rightarrow> move \<Rightarrow> xyz list \<Rightarrow> ('w, 'm) agent \<Rightarrow> (move \<times> ('w, 'm) agent) result" where
  "follow_path E m p ag =
     (case p of
        [] \<Rightarrow> Raise IndexError (m, ag)
      | w # ws \<Rightarrow>
          (let m4 = m\<lparr>path := Some (butlast p)\<rparr> in
           if pos E (world ag) \<noteq> last p then Raise AssertionError (m4, ag)
           else
             (case butlast p of
                [] \<Rightarrow> Raise IndexError (m4, ag)
              | v # vs \<Rightarrow>
                  (case map_of STEP_FNS (subv (last (v # vs)) (pos E (world ag))) of
                     None \<Rightarrow> Raise KeyError (m4, ag)
                   | Some f \<Rightarrow> Return (m4, agent_step E ag f)))))"

definition Move_step ::
  "('w, 'm) env \<Rightarrow> move \<Rightarrow> ('w, 'm) agent \<Rightarrow> (move \<times> ('w, 'm) agent) result" where
  "Move_step E m0 ag0 =
     (let m1 = m0\<lparr>interrupted := False\<rparr>;
          (rep, ag) = replace_blocks E (replace m1) ([], ag0);
          m2 = m1\<lparr>replace := rep\<rparr>
      in if manhat_dist (pos E (world ag)) (target m2) \<le> approx m2 then
           Return (m2\<lparr>finished := True\<rparr>,
             (case memid m2 of
                None \<Rightarrow> ag
              | Some mid \<Rightarrow> ag\<lparr>memory := Move_record_location E m2 mid (memory ag)\<rparr>))
         else
           (case path_stale E m2 ag of
              Inl e \<Rightarrow> Raise e (m2, ag)
            | Inr stale \<Rightarrow>
                (let m3 = (if stale then m2\<lparr>path := astar E (world ag) (target m2) (approx m2)\<rparr>
                           else m2)
                 in case path m3 of
                      None \<Rightarrow> Return (handle_no_path E m3 ag)
                    | Some p \<Rightarrow> follow_path E m3 p ag)))"

section \<open>Destroy\<close>

definition DIG_REACH :: int where
  "DIG_REACH = 3"

text \<open>
  \<^verbatim>\<open>xyz_remaining\<close> is a Python set: a duplicate-free list here, in the set's iteration
  order. \<^verbatim>\<open>next(iter(...))\<close> of an empty set raises StopIteration.
\<close>

definition Destroy_init ::
  "('w, 'm) env \<Rightarrow> ('w, 'm) agent \<Rightarrow> block list \<Rightarrow> bool \<Rightarrow> nat option \<Rightarrow> error + destroy" where
  "Destroy_init E ag sch msg f =
     (let remaining = remdups (strip_idmeta sch) in
      case remaining of
        [] \<Rightarrow> Inl StopIteration
      | p # _ \<Rightarrow>
          Inr \<lparr> interrupted = False, featurizer = f, finished = False, name = None,
                block_memory = None, undone = False, memid = None, end_time = None,
                destroy_schematic = sch, xyz_remaining = remaining, dig_message = msg,
                destroyed_block_object_triples =
                  (case get_block_object_by_xyz E (memory ag) p of
                     None \<Rightarrow> []
                   | Some (mid, keys) \<Rightarrow>
                       if list_all (\<lambda>q. q \<in> set remaining) keys then
                         concat (map (\<lambda>pred. get_triples E (memory ag) (Some mid) pred None)
                                   [''has_tag'', ''has_name'', ''has_colour''])
                       else []) \<rparr>)"

definition get_target :: "('w, 'm) env \<Rightarrow> destroy \<Rightarrow> ('w, 'm) agent \<Rightarrow> xyz option" where
  "get_target E d ag =
     find (\<lambda>c. astar E (world ag) c 2 \<noteq> None)
       (sort_key (\<lambda>c. manhat_dist (pos E (world ag)) c) (xyz_remaining d))"

definition Destroy_step ::
  "('w, 'm) env \<Rightarrow> destroy \<Rightarrow> ('w, 'm) agent \<Rightarrow> (destroy \<times> ('w, 'm) agent) result" where
  "Destroy_step E d0 ag =
     (let d = d0\<lparr>interrupted := False\<rparr> in
      if length (xyz_remaining d) = 0 then
        Return (d\<lparr>finished := True\<rparr>,
                if dig_message d then send_chat ag ''I finished digging this.'' else ag)
      else
        (case get_target E d ag of
           None \<Rightarrow>
             Return (d\<lparr>finished := True\<rparr>, send_chat ag ''There's no path, so I'm giving up'')
         | Some tgt \<Rightarrow>
             if manhat_dist (pos E (world ag)) tgt \<le> DIG_REACH then
               Return (d\<lparr>xyz_remaining := removeAll tgt (xyz_remaining d)\<rparr>, agent_dig E ag tgt)
             else
               Return (d, task_stack_push ag
                            (TMove (Move_init tgt (Some DIG_REACH) (featurizer d))) (memid d))))"

section \<open>Build\<close>

definition PLACE_REACH :: int where
  "PLACE_REACH = 3"

text \<open>The \<^verbatim>\<open>task_data\<close> dict of a Build: an absent key is \<open>None\<close>.\<close>

record build_task_data =
  td_blocks_list :: "block list"
  td_origin :: "xyz option"
  td_embed :: "bool option"
  td_verbose :: "bool option"
  td_force :: "bool option"
  td_fill_message :: "bool option"
  td_schematic_memid :: "memid option"
  td_schematic_tags :: "(string \<times> string) list option"

definition dict_get :: "'a option \<Rightarrow> 'a \<Rightarrow> 'a" where
  "dict_get v dflt = (case v of None \<Rightarrow> dflt | Some x \<Rightarrow> x)"

text \<open>The loop over \<^verbatim>\<open>BUILD_BLOCK_REPLACE_MAP.items()\<close> of the constructor.\<close>

definition replace_bad_blocks :: "(int \<times> idm) list \<Rightarrow> (yzx \<Rightarrow> idm) \<Rightarrow> (yzx \<Rightarrow> idm)" where
  "replace_bad_blocks items g =
     fold (\<lambda>(bad, good) h. (\<lambda>c. if fst (h c) = bad then good else h c)) items g"

definition Build_init ::
  "('w, 'm) env \<Rightarrow> ('w, 'm) agent \<Rightarrow> build_task_data \<Rightarrow> nat option \<Rightarrow> error + build" where
  "Build_init E ag td f =
     (case blocks_list_to_npy (td_blocks_list td) of
        Inl e \<Rightarrow> Inl e
      | Inr npy \<Rightarrow>
          (let sch = npy\<lparr>cells := replace_bad_blocks (BUILD_BLOCK_REPLACE_MAP E) (cells npy)\<rparr>;
               frc = dict_get (td_force td) False;
               emb = dict_get (td_embed td) False;
               b = \<lparr> interrupted = False, featurizer = f, finished = False, name = None,
                     block_memory = None, undone = False, memid = None, end_time = None,
                     embed = emb, schematic = sch, origin = td_origin td,
                     verbose = dict_get (td_verbose td) True, force = frc,
                     attempts = (\<lambda>c. 3),
                     fill_message = dict_get (td_fill_message td) False,
                     schematic_memid = td_schematic_memid td,
                     schematic_tags = dict_get (td_schematic_tags td) [],
                     giving_up_message_sent = False, wait = False,
                     old_blocks_list = None, old_origin = None, new_blocks = [] \<rparr>
           in if \<not> frc \<and> \<not> emb \<and> np_any (shape sch) (\<lambda>c. isin (fst (cells sch c)) [2, 3]) then
                (case td_origin td of
                   None \<Rightarrow> Inl TypeError
                 | Some (ox, oy, oz) \<Rightarrow>
                     Inr (b\<lparr>origin := Some (ox, ground_height E (world ag) (ox, oy, oz), oz)\<rparr>))
              else Inr b))"

text \<open>The diff mask of \<^verbatim>\<open>Build.step\<close>, cell by cell.\<close>

definition Build_diff :: "('w, 'm) env \<Rightarrow> build \<Rightarrow> grid \<Rightarrow> yzx \<Rightarrow> bool" where
  "Build_diff E b current c =
     (let cur = fst (cells current c);
          sch = fst (cells (schematic b) c);
          d0 = (cur \<noteq> sch \<and> attempts b c > 0 \<and> \<not> isin cur (BUILD_IGNORE_BLOCKS E));
          d1 = (if embed b then d0 \<and> sch \<noteq> 0 else d0)
      in fold (\<lambda>(p, q) d. d \<and> (\<not> isin cur [p, q] \<or> \<not> isin sch [p, q]))
           (BUILD_INTERCHANGEABLE_PAIRS E) d1)"

text \<open>
  \<^verbatim>\<open>get_next_target\<close>: four stable sorts of the masked cells, then the first element.
  The key of the second sort is the negation of a uint8, which wraps.
\<close>

definition get_next_target :: "build \<Rightarrow> xyz \<Rightarrow> yzx list \<Rightarrow> error + yzx" where
  "get_next_target b rel diff_yzx =
     (let relpos_yzx = to_yzx rel;
          s4 = sort_key (\<lambda>yzx. manhat_dist yzx relpos_yzx) diff_yzx;
          s3 = sort_key (\<lambda>yzx. - attempts b yzx) s4;
          s2 = sort_key (\<lambda>yzx. fst yzx) s3;
          s1 = sort_key (\<lambda>yzx. yzx = relpos_yzx \<or> yzx = addv relpos_yzx (1, 0, 0)) s2
      in case s1 of [] \<Rightarrow> Inl IndexError | c # _ \<Rightarrow> Inr c)"

definition step_any_dir ::
  "('w, 'm) env \<Rightarrow> build \<Rightarrow> ('w, 'm) agent \<Rightarrow> (build \<times> ('w, 'm) agent) result" where
  "step_any_dir E b ag =
     (case pos E (world ag) of (px, py, pz) \<Rightarrow>
        (let B = get_blocks E (world ag) (px - 1) (px + 1) (py - 1) (py + 2) (pz - 1) (pz + 1);
             passable = (\<lambda>c. isin (fst (cells B c)) (PASSABLE_BLOCKS E));
             walkable = (\<lambda>c. passable c \<and> passable (addv c (1, 0, 0)))
         in case filter (\<lambda>(stp, fn). walkable (addv (1, 1, 1) stp))
                   [((0, 1, 0), step_pos_z), ((0, -1, 0), step_neg_z), ((0, 0, 1), step_pos_x),
                    ((0, 0, -1), step_neg_x), ((1, 0, 0), step_pos_y), ((-1, 0, 0), step_neg_y)] of
              [] \<Rightarrow> Raise CantStepException (b, ag)
            | (stp, fn) # _ \<Rightarrow> Return (b, agent_step E ag fn)))"

definition Build_finish ::
  "('w, 'm) env \<Rightarrow> build \<Rightarrow> ('w, 'm) agent \<Rightarrow> (build \<times> ('w, 'm) agent) result" where
  "Build_finish E b ag =
     (case origin b of
        None \<Rightarrow> Raise TypeError (b, ag)
      | Some org \<Rightarrow>
     (case npy_to_blocks_list (schematic b) org of
        [] \<Rightarrow> Raise IndexError (b, ag)
      | (p, _) # _ \<Rightarrow>
          (case get_block_object_ids_by_xyz E (memory ag) p of
             [] \<Rightarrow> Raise IndexError (b, ag)
           | mid # _ \<Rightarrow>
               (let mem1 = (case schematic_memid b of
                              None \<Rightarrow> memory ag
                            | Some sm \<Rightarrow> if sm = [] then memory ag
                                else tag_block_object_from_schematic E (memory ag) mid sm);
                    mem2 = fold (\<lambda>(pred, obj) m.
                                   (let m1 = add_triple E m (mid, pred, obj)
                                    in if pred = ''has_name'' then tag E m1 mid obj else m1))
                             (schematic_tags b) mem1;
                    ag1 = ag\<lparr>memory := mem2\<rparr>;
                    ag2 = (if verbose b then send_chat ag1 ''I finished building this'' else ag1);
                    ag3 = (if fill_message b then send_chat ag2 ''I finished filling this'' else ag2)
                in Return (b\<lparr>finished := True\<rparr>, ag3)))))"

text \<open>The block \<^verbatim>\<open>if idm[0] != 0:\<close> of \<^verbatim>\<open>Build.step\<close>: hold the item and try to place it.\<close>

definition place_target ::
  "('w, 'm) env \<Rightarrow> build \<Rightarrow> ('w, 'm) agent \<Rightarrow> idm \<Rightarrow> xyz \<Rightarrow> build \<times> ('w, 'm) agent" where
  "place_target E b ag i tgt =
     (let ag2 = agent_set_held_item E ag i;
          placed = agent_place_block E ag2 tgt;
          ag3 = snd placed
      in if fst placed then
           (b\<lparr>new_blocks := new_blocks b @ [(tgt, i)]\<rparr>,
            if fst (block_at E (world ag3) tgt) = fst i then
              ag3\<lparr>pending_agent_placed_blocks := List.insert tgt (pending_agent_placed_blocks ag3)\<rparr>
            else ag3)
         else (b, ag3))"

text \<open>The decrement of the target's attempts counter and the one-time notice.\<close>

definition count_attempt :: "build \<Rightarrow> ('w, 'm) agent \<Rightarrow> yzx \<Rightarrow> build \<times> ('w, 'm) agent" where
  "count_attempt b ag yzx =
     (let b2 = b\<lparr>attempts := (attempts b)(yzx := attempts b yzx - 1)\<rparr>
      in if attempts b2 yzx = 0 \<and> \<not> giving_up_message_sent b2 then
           (b2\<lparr>giving_up_message_sent := True\<rparr>,
            send_chat ag
              ''I'm skipping a block because I can't place it. Maybe something is in the way.'')
         else (b2, ag))"

text \<open>The branch of \<^verbatim>\<open>Build.step\<close> for a target within reach.\<close>

definition Build_place ::
  "('w, 'm) env \<Rightarrow> build \<Rightarrow> ('w, 'm) agent \<Rightarrow> yzx \<Rightarrow> idm \<Rightarrow> idm \<Rightarrow> xyz \<Rightarrow>
     (build \<times> ('w, 'm) agent) result" where
  "Build_place E b ag yzx i current_idm tgt =
     (if fst current_idm = fst i then Raise AssertionError (b, ag)
      else
        (let ag1 = (if fst current_idm \<noteq> 0 then agent_dig E ag tgt else ag);
             s = (if fst i \<noteq> 0 then place_target E b ag1 i tgt else (b, ag1))
         in Return (count_attempt (fst s) (snd s) yzx)))"

text \<open>The lazy undo snapshot at the head of \<^verbatim>\<open>Build.step\<close>.\<close>

definition save_undo_state :: "build \<Rightarrow> grid \<Rightarrow> xyz \<Rightarrow> build" where
  "save_undo_state b current org =
     (case old_blocks_list b of
        Some l \<Rightarrow> b
      | None \<Rightarrow>
          (let obl = npy_to_blocks_list current org;
               b1 = b\<lparr>old_blocks_list := Some obl\<rparr>
           in case np_min (strip_idmeta obl) of
                Inl e \<Rightarrow> b1
              | Inr m \<Rightarrow> b1\<lparr>old_origin := Some m\<rparr>))"

text \<open>The blocks that occupy the build area, read at the head of \<^verbatim>\<open>Build.step\<close>.\<close>

definition Build_current :: "('w, 'm) env \<Rightarrow> build \<Rightarrow> ('w, 'm) agent \<Rightarrow> xyz \<Rightarrow> grid" where
  "Build_current E b ag org =
     (case org of (ox, oy, oz) \<Rightarrow>
        (case shape (schematic b) of (sy, sz, sx) \<Rightarrow>
           get_blocks E (world ag) ox (ox + int sx - 1) oy (oy + int sy - 1) oz (oz + int sz - 1)))"

text \<open>\<^verbatim>\<open>Build.step\<close> from "get next block to place" on.\<close>

definition Build_target ::
  "('w, 'm) env \<Rightarrow> build \<Rightarrow> ('w, 'm) agent \<Rightarrow> xyz \<Rightarrow> grid \<Rightarrow> (yzx \<Rightarrow> bool) \<Rightarrow>
     (build \<times> ('w, 'm) agent) result" where
  "Build_target E b ag org current diff =
     (case get_next_target b (subv (pos E (world ag)) org)
             (argwhere (shape (schematic b)) diff) of
        Inl e \<Rightarrow> Raise e (b, ag)
      | Inr yzx \<Rightarrow>
          (let i = cells (schematic b) yzx;
               current_idm = cells current yzx;
               tgt = addv (to_xyz yzx) org
           in if tgt = pos E (world ag) \<or> tgt = addv (pos E (world ag)) (0, 1, 0)
              then step_any_dir E b ag
              else if manhat_dist (pos E (world ag)) tgt \<le> PLACE_REACH
              then Build_place E b ag yzx i current_idm tgt
              else Return (b, task_stack_push ag
                     (TMove (Move_init tgt (Some PLACE_REACH) (featurizer b))) (memid b))))"

text \<open>\<^verbatim>\<open>Build.step\<close> once the diff mask has a true cell: clear what is in the way first.\<close>

definition Build_act ::
  "('w, 'm) env \<Rightarrow> build \<Rightarrow> ('w, 'm) agent \<Rightarrow> xyz \<Rightarrow> grid \<Rightarrow> (yzx \<Rightarrow> bool) \<Rightarrow>
     (build \<times> ('w, 'm) agent) result" where
  "Build_act E b ag org current diff =
     (let remove_mask = (\<lambda>c. diff c \<and> fst (cells current c) \<noteq> 0);
          rel_yzxs = argwhere (shape (schematic b)) remove_mask;
          xyzs = map (\<lambda>c. addv (to_xyz c) org) rel_yzxs
      in if xyzs \<noteq> [] then
           (case Destroy_init E ag (fill_idmeta E ag xyzs) False None of
              Inl e \<Rightarrow> Raise e (b, ag)
            | Inr d \<Rightarrow> Return (b, task_stack_push ag (TDestroy d) (memid b)))
         else Build_target E b ag org current diff)"

definition Build_step ::
  "('w, 'm) env \<Rightarrow> build \<Rightarrow> ('w, 'm) agent \<Rightarrow> (build \<times> ('w, 'm) agent) result" where
  "Build_step E b0 ag =
     (let b1 = b0\<lparr>interrupted := False\<rparr> in
      case origin b1 of
        None \<Rightarrow> Raise TypeError (b1, ag)
      | Some org \<Rightarrow>
          (let current = Build_current E b1 ag org;
               b = save_undo_state b1 current org;
               diff = Build_diff E b current
           in if \<not> np_any (shape (schematic b)) diff then Build_finish E b ag
              else Build_act E b ag org current diff))"


section \<open>Fill, Dig, Loop and Dance\<close>

record fill = task +
  fill_schematic :: "xyz list"
  block_idm :: idm
  build_task :: "build option"

definition Fill_init :: "xyz list \<Rightarrow> idm option \<Rightarrow> nat option \<Rightarrow> fill" where
  "Fill_init sch bi f =
     \<lparr> interrupted = False, featurizer = f, finished = False, name = None,
       block_memory = None, undone = False, memid = None, end_time = None,
       fill_schematic = sch, block_idm = dict_get bi (2, 0), build_task = None \<rparr>"

definition Fill_task_data :: "fill \<Rightarrow> xyz \<Rightarrow> build_task_data" where
  "Fill_task_data t org =
     \<lparr> td_blocks_list = map (\<lambda>p. (p, block_idm t)) (fill_schematic t),
       td_origin = Some org, td_embed = Some True, td_verbose = Some False,
       td_force = Some True, td_fill_message = Some True,
       td_schematic_memid = None, td_schematic_tags = None \<rparr>"

definition Fill_step ::
  "('w, 'm) env \<Rightarrow> fill \<Rightarrow> ('w, 'm) agent \<Rightarrow> (fill \<times> ('w, 'm) agent) result" where
  "Fill_step E t ag =
     (case np_min (fill_schematic t) of
        Inl e \<Rightarrow> Raise e (t, ag)
      | Inr org \<Rightarrow>
          (case Build_init E ag (Fill_task_data t org) None of
             Inl e \<Rightarrow> Raise e (t, ag)
           | Inr b \<Rightarrow>
               Return (t\<lparr>build_task := Some b, finished := True\<rparr>,
                       task_stack_push ag (TBuild b) None)))"

record dig_task = task +
  dig_origin :: xyz
  dig_length :: int
  dig_width :: int
  dig_depth :: int
  destroy_task :: "destroy option"

definition Dig_init :: "xyz \<Rightarrow> int \<Rightarrow> int \<Rightarrow> int \<Rightarrow> dig_task" where
  "Dig_init org len wid dep =
     \<lparr> interrupted = False, featurizer = None, finished = False, name = None,
       block_memory = None, undone = False, memid = None, end_time = None,
       dig_origin = org, dig_length = len, dig_width = wid, dig_depth = dep,
       destroy_task = None \<rparr>"

text \<open>The rectangular volume of a Dig, in the nesting order of the list comprehension.\<close>

definition volume :: "int \<Rightarrow> int \<Rightarrow> int \<Rightarrow> int \<Rightarrow> int \<Rightarrow> int \<Rightarrow> xyz list" where
  "volume mx Mx my My mz Mz =
     concat (map (\<lambda>x. concat (map (\<lambda>y. map (\<lambda>z. (x, y, z)) [mz..Mz]) [my..My])) [mx..Mx])"

text \<open>\<^verbatim>\<open>np.isin(blocks[-1, :, :, 0], PASSABLE_BLOCKS).all()\<close>; index -1 of an empty axis raises.\<close>

definition top_layer_passable :: "('w, 'm) env \<Rightarrow> grid \<Rightarrow> error + bool" where
  "top_layer_passable E blocks =
     (case shape blocks of (sy, sz, sx) \<Rightarrow>
        if sy = 0 then Inl IndexError
        else Inr (list_all (\<lambda>(z, x). isin (fst (cells blocks (int sy - 1, z, x))) (PASSABLE_BLOCKS E))
                    (concat (map (\<lambda>z. map (\<lambda>x. (int z, int x)) [0..<sx]) [0..<sz]))))"

definition Dig_poss :: "('w, 'm) env \<Rightarrow> dig_task \<Rightarrow> ('w, 'm) agent \<Rightarrow> error + xyz list" where
  "Dig_poss E t ag =
     (case dig_origin t of (mx, My, mz) \<Rightarrow>
        (let Mx = mx + (dig_width t - 1);
             my = My - (dig_depth t - 1);
             Mz = mz + (dig_length t - 1);
             blocks = get_blocks E (world ag) mx Mx my My mz Mz
         in case top_layer_passable E blocks of
              Inl e \<Rightarrow> Inl e
            | Inr open_top \<Rightarrow> Inr (volume mx Mx (if open_top then my - 1 else my) My mz Mz)))"

definition Dig_step ::
  "('w, 'm) env \<Rightarrow> dig_task \<Rightarrow> ('w, 'm) agent \<Rightarrow> (dig_task \<times> ('w, 'm) agent) result" where
  "Dig_step E t ag =
     (case Dig_poss E t ag of
        Inl e \<Rightarrow> Raise e (t, ag)
      | Inr poss \<Rightarrow>
          (case Destroy_init E ag (fill_idmeta E ag poss) True None of
             Inl e \<Rightarrow> Raise e (t, ag)
           | Inr d \<Rightarrow>
               Return (t\<lparr>destroy_task := Some d, finished := True\<rparr>,
                       task_stack_push ag (TDestroy d) (memid t))))"

text \<open>
  A Loop holds two injected callables; both are collaborators and may read the agent.
\<close>

record ('w, 'm) loop = task +
  new_tasks_fn :: "('w, 'm) agent \<Rightarrow> task_obj list"
  stop_condition :: "('w, 'm) agent \<Rightarrow> bool"

definition Loop_init ::
  "(('w, 'm) agent \<Rightarrow> task_obj list) \<Rightarrow> (('w, 'm) agent \<Rightarrow> bool) \<Rightarrow> ('w, 'm) loop" where
  "Loop_init fn cond =
     \<lparr> interrupted = False, featurizer = None, finished = False, name = None,
       block_memory = None, undone = False, memid = None, end_time = None,
       new_tasks_fn = fn, stop_condition = cond \<rparr>"

definition Loop_step ::
  "('w, 'm) loop \<Rightarrow> ('w, 'm) agent \<Rightarrow> (('w, 'm) loop \<times> ('w, 'm) agent) result" where
  "Loop_step t ag =
     (if stop_condition t ag then Return (t\<lparr>finished := True\<rparr>, ag)
      else Return (t, fold (\<lambda>c a. task_stack_push a c (memid t)) (new_tasks_fn t ag) ag))"

text \<open>
  The Movement object of a Dance (dance.py, outside tasks.py) is the queue of tasks its
  \<^verbatim>\<open>get_move\<close> still hands out; \<^verbatim>\<open>get_move\<close> returns None once it is empty.
\<close>

record dance = task +
  movement :: "task_obj list"

definition Dance_step ::
  "dance \<Rightarrow> ('w, 'm) agent \<Rightarrow> (dance \<times> ('w, 'm) agent) result" where
  "Dance_step t0 ag =
     (let t = t0\<lparr>interrupted := False\<rparr> in
      case movement t of
        [] \<Rightarrow> Return (t\<lparr>finished := True\<rparr>, ag)
      | mv # rest \<Rightarrow> Return (t\<lparr>movement := rest\<rparr>, task_stack_push ag mv (memid t)))"

text \<open>The base class: \<^verbatim>\<open>Task.step\<close> returns at once.\<close>

definition Task_step :: "task \<Rightarrow> ('w, 'm) agent \<Rightarrow> (task \<times> ('w, 'm) agent) result" where
  "Task_step t ag = Return (t, ag)"

section \<open>A small concrete world\<close>

text \<open>
  A simulated game world on which the definitions can be run: the agent's position, the
  blocks that are not air, and the held item. Digging removes a block, placing puts the
  held item down where no block is, a movement primitive always moves.
\<close>

record sim_world =
  sim_pos :: xyz
  sim_blocks :: "block list"
  sim_held :: idm

definition sim_block_at :: "sim_world \<Rightarrow> xyz \<Rightarrow> idm" where
  "sim_block_at w p = (case map_of (sim_blocks w) p of None \<Rightarrow> (0, 0) | Some i \<Rightarrow> i)"

definition sim_place_block :: "sim_world \<Rightarrow> xyz \<Rightarrow> bool \<times> sim_world" where
  "sim_place_block w p =
     (if fst (sim_block_at w p) = 0 then (True, w\<lparr>sim_blocks := (p, sim_held w) # sim_blocks w\<rparr>)
      else (False, w))"

fun step_vec :: "step_fn \<Rightarrow> xyz" where
  "step_vec step_pos_x = (1, 0, 0)"
| "step_vec step_neg_x = (-1, 0, 0)"
| "step_vec step_pos_y = (0, 1, 0)"
| "step_vec step_neg_y = (0, -1, 0)"
| "step_vec step_pos_z = (0, 0, 1)"
| "step_vec step_neg_z = (0, 0, -1)"

text \<open>The pathfinder of the simulated world is a parameter; the memory is trivial.\<close>

definition sim_env :: "(sim_world \<Rightarrow> xyz \<Rightarrow> int \<Rightarrow> xyz list option) \<Rightarrow> (sim_world, unit) env" where
  "sim_env pathfinder =
     \<lparr> PASSABLE_BLOCKS = [0, 8, 9],
       BUILD_BLOCK_REPLACE_MAP = [(8, (0, 0)), (9, (0, 0)), (13, (1, 0))],
       BUILD_IGNORE_BLOCKS = [8, 9],
       BUILD_INTERCHANGEABLE_PAIRS = [(2, 3)],
       pos = sim_pos,
       block_at = sim_block_at,
       dig = (\<lambda>w p. w\<lparr>sim_blocks := filter (\<lambda>(q, i). q \<noteq> p) (sim_blocks w)\<rparr>),
       place_block = sim_place_block,
       set_held_item = (\<lambda>w i. w\<lparr>sim_held := i\<rparr>),
       do_step = (\<lambda>w f. w\<lparr>sim_pos := addv (sim_pos w) (step_vec f)\<rparr>),
       astar = pathfinder,
       ground_height = (\<lambda>w p. 0),
       add_location = (\<lambda>m p. (''loc'', m)),
       update_recent_entities = (\<lambda>m ids. m),
       add_triple = (\<lambda>m t. m),
       get_triples = (\<lambda>m s p ob. []),
       get_block_object_ids_by_xyz = (\<lambda>m p. [''obj'']),
       get_block_object_by_xyz = (\<lambda>m p. None),
       tag_block_object_from_schematic = (\<lambda>m a b. m),
       tag = (\<lambda>m a s. m) \<rparr>"

definition no_route :: "sim_world \<Rightarrow> xyz \<Rightarrow> int \<Rightarrow> xyz list option" where
  "no_route w t a = None"

definition sim_agent :: "xyz \<Rightarrow> block list \<Rightarrow> (sim_world, unit) agent" where
  "sim_agent p bs =
     \<lparr> world = \<lparr> sim_pos = p, sim_blocks = bs, sim_held = (0, 0) \<rparr>, memory = (),
       task_stack = [], pending_agent_placed_blocks = [], chats = [], calls = [] \<rparr>"

text \<open>Concrete tasks: a Destroy over given cells, and a Loop that never stops.\<close>

definition sim_destroy :: "xyz list \<Rightarrow> destroy" where
  "sim_destroy ps =
     \<lparr> interrupted = False, featurizer = None, finished = False, name = None,
       block_memory = None, undone = False, memid = None, end_time = None,
       destroy_schematic = map (\<lambda>p. (p, (1, 0))) ps, xyz_remaining = ps,
       dig_message = False, destroyed_block_object_triples = [] \<rparr>"

definition no_tasks :: "(sim_world, unit) agent \<Rightarrow> task_obj list" where
  "no_tasks ag = []"

definition never_stop :: "(sim_world, unit) agent \<Rightarrow> bool" where
  "never_stop ag = False"

text \<open>
  A Build stepped again and again: between two steps anything may happen to the world, so
  each step gets an agent state of its own; a step that raises leaves its mutations.
\<close>

definition Build_run :: "('w, 'm) env \<Rightarrow> build \<Rightarrow> ('w, 'm) agent list \<Rightarrow> build" where
  "Build_run E b ags = fold (\<lambda>ag b'. fst (state_of (Build_step E b' ag))) ags b"

text \<open>Task data of a forced Build of the given blocks, and a position to stand on.\<close>

definition sim_task_data :: "block list \<Rightarrow> xyz \<Rightarrow> bool \<Rightarrow> build_task_data" where
  "sim_task_data bl org emb =
     \<lparr> td_blocks_list = bl, td_origin = Some org, td_embed = Some emb, td_verbose = None,
       td_force = Some True, td_fill_message = None, td_schematic_memid = None,
       td_schematic_tags = None \<rparr>"

definition sim_build :: "block list \<Rightarrow> xyz \<Rightarrow> bool \<Rightarrow> build" where
  "sim_build bl org emb =
     projr (Build_init (sim_env no_route) (sim_agent (0, 0, 0) []) (sim_task_data bl org emb) None)"

section \<open>Running pushed tasks, and the cells a step touches\<close>

text \<open>
  The scheduler is outside tasks.py; it calls \<^verbatim>\<open>step\<close> on the task on top of the stack,
  which Python dispatches on the task's class.
\<close>

fun step_task ::
  "('w, 'm) env \<Rightarrow> task_obj \<Rightarrow> ('w, 'm) agent \<Rightarrow> (task_obj \<times> ('w, 'm) agent) result" where
  "step_task E (TMove m) ag =
     (case Move_step E m ag of
        Return (m', ag') \<Rightarrow> Return (TMove m', ag') | Raise e (m', ag') \<Rightarrow> Raise e (TMove m', ag'))"
| "step_task E (TBuild b) ag =
     (case Build_step E b ag of
        Return (b', ag') \<Rightarrow> Return (TBuild b', ag') | Raise e (b', ag') \<Rightarrow> Raise e (TBuild b', ag'))"
| "step_task E (TDestroy d) ag =
     (case Destroy_step E d ag of
        Return (d', ag') \<Rightarrow> Return (TDestroy d', ag')
      | Raise e (d', ag') \<Rightarrow> Raise e (TDestroy d', ag'))"

text \<open>The task pushed last (only read where a task has been pushed).\<close>

definition top_task :: "('w, 'm) agent \<Rightarrow> task_obj" where
  "top_task ag = fst (last (task_stack ag))"

text \<open>
  What a step did, read off the agent before and after: the primitive calls it added dig
  or place only at coordinates of \<open>L\<close>, and the children it pushed are Move tasks or
  Destroy tasks over cells of \<open>L\<close>.
\<close>

fun call_within :: "xyz list \<Rightarrow> call \<Rightarrow> bool" where
  "call_within L (Dig p) = (p \<in> set L)"
| "call_within L (PlaceBlock p) = (p \<in> set L)"
| "call_within L (SetHeldItem i) = True"
| "call_within L (Step f) = True"

fun child_within :: "xyz list \<Rightarrow> task_obj \<Rightarrow> bool" where
  "child_within L (TMove m) = True"
| "child_within L (TDestroy d) = list_all (\<lambda>p. p \<in> set L) (xyz_remaining d)"
| "child_within L (TBuild b) = False"

definition acts_within :: "xyz list \<Rightarrow> ('w, 'm) agent \<Rightarrow> ('w, 'm) agent \<Rightarrow> bool" where
  "acts_within L ag ag' =
     (take (length (calls ag)) (calls ag') = calls ag
      \<and> list_all (call_within L) (drop (length (calls ag)) (calls ag'))
      \<and> take (length (task_stack ag)) (task_stack ag') = task_stack ag
      \<and> list_all (\<lambda>pushed. child_within L (fst pushed))
           (drop (length (task_stack ag)) (task_stack ag')))"

text \<open>A Build that only fills: embed is set and every block its schematic intends lies in \<open>L\<close>.\<close>

definition fills :: "xyz list \<Rightarrow> build \<Rightarrow> bool" where
  "fills L b =
     (embed b \<and>
      (case origin b of
         None \<Rightarrow> False
       | Some org \<Rightarrow>
           list_all (\<lambda>c. fst (cells (schematic b) c) = 0 \<or> addv (to_xyz c) org \<in> set L)
             (indices (shape (schematic b)))))"

text \<open>
  A run in the simulated world with no route to anywhere: the agent at the origin, a stone
  block next to it at (1, 0, 0), and a Fill of the single far cell (10, 0, 0). The Fill is
  stepped, then the Build it pushed, then the Move that the Build pushed.
\<close>

definition far_fill :: fill where
  "far_fill = Fill_init [(10, 0, 0)] None None"

definition after_fill :: "(sim_world, unit) agent" where
  "after_fill = snd (state_of (Fill_step (sim_env no_route) far_fill
                                 (sim_agent (0, 0, 0) [((1, 0, 0), (1, 0))])))"

definition after_build :: "(sim_world, unit) agent" where
  "after_build = snd (state_of (step_task (sim_env no_route) (top_task after_fill) after_fill))"

definition after_move :: "(sim_world, unit) agent" where
  "after_move = snd (state_of (step_task (sim_env no_route) (top_task after_build) after_build))"

section \<open>Properties\<close>

subsection \<open>C8: check_finished\<close>

text \<open>
  C8, as stated, fails where the task has no \<^verbatim>\<open>end_time\<close> attribute, which no
  constructor or step of tasks.py assigns: reading it raises AttributeError.
\<close>

theorem check_finished_counterexample:
  "check_finished ((Task_init None)\<lparr>finished := True,
       block_memory := Some \<lparr>stamped_end_time = None\<rparr>\<rparr>)
   = Raise AttributeError (True, (Task_init None)\<lparr>finished := True,
       block_memory := Some \<lparr>stamped_end_time = None\<rparr>\<rparr>)"
  by (simp add: check_finished_def Task_init_def)

text \<open>
  C8 (amended): for every task variant whose finished flag is true, whose block_memory
  back-reference is set and whose end_time attribute has been assigned, check_finished
  returns true and copies that end_time onto the memory record, changing nothing else; the
  same holds on every later call. While finished is false it returns false and changes
  nothing. Without an assigned end_time (finished true, block_memory set) the call raises
  AttributeError and leaves the task as it was.
\<close>

theorem check_finished_stamps:
  "(finished t \<and> block_memory t = Some bm \<and> end_time t = Some e \<longrightarrow>
      check_finished t = Return (True, t\<lparr>block_memory := Some (bm\<lparr>stamped_end_time := Some e\<rparr>)\<rparr>))
   \<and> (\<not> finished t \<longrightarrow> check_finished t = Return (False, t))
   \<and> (finished t \<and> block_memory t = Some bm \<and> end_time t = None \<longrightarrow>
      check_finished t = Raise AttributeError (True, t))"
  by (simp add: check_finished_def)

theorem check_finished_stamps_witness:
  "finished ((Task_init None)\<lparr>finished := True,
       block_memory := Some \<lparr>stamped_end_time = None\<rparr>, end_time := Some 7\<rparr>)
   \<and> check_finished ((Task_init None)\<lparr>finished := True,
       block_memory := Some \<lparr>stamped_end_time = None\<rparr>, end_time := Some 7\<rparr>)
     = Return (True, (Task_init None)\<lparr>finished := True,
       block_memory := Some \<lparr>stamped_end_time = Some 7\<rparr>, end_time := Some 7\<rparr>)
   \<and> check_finished (Task_init None) = Return (False, Task_init None)"
  using check_finished_stamps [of "(Task_init None)\<lparr>finished := True,
       block_memory := Some \<lparr>stamped_end_time = None\<rparr>, end_time := Some 7\<rparr>"
       "\<lparr>stamped_end_time = None\<rparr>" 7]
    check_finished_stamps [of "Task_init None"]
  by (simp add: Task_init_def)

subsection \<open>Flags and frames of the single steps\<close>

lemma handle_no_path_interrupted [simp]:
  "interrupted (fst (handle_no_path E m ag)) = interrupted m"
  by (simp add: handle_no_path_def Let_def split: prod.split list.split)

lemma follow_path_interrupted [simp]:
  "interrupted (fst (state_of (follow_path E m p ag))) = interrupted m"
  by (simp add: follow_path_def Let_def split: list.split option.split)

lemma Move_step_interrupted: "\<not> interrupted (fst (state_of (Move_step E m ag)))"
  by (simp add: Move_step_def Let_def split: prod.split option.split sum.split)

lemma Dance_step_interrupted: "\<not> interrupted (fst (state_of (Dance_step d ag)))"
  by (auto simp: Dance_step_def Let_def split: list.splits)

lemma Destroy_step_interrupted: "\<not> interrupted (fst (state_of (Destroy_step E d ag)))"
  by (auto simp: Destroy_step_def Let_def split: option.splits)

lemma save_undo_state_interrupted [simp]:
  "interrupted (save_undo_state b c org) = interrupted b"
  by (simp add: save_undo_state_def Let_def split: option.split sum.split)

lemma Build_finish_interrupted [simp]:
  "interrupted (fst (state_of (Build_finish E b ag))) = interrupted b"
  by (simp add: Build_finish_def Let_def split: option.split list.split prod.split)

lemma step_any_dir_interrupted [simp]:
  "interrupted (fst (state_of (step_any_dir E b ag))) = interrupted b"
  by (simp add: step_any_dir_def Let_def split: list.split prod.split)

lemma place_target_interrupted [simp]:
  "interrupted (fst (place_target E b ag i tgt)) = interrupted b"
  by (simp add: place_target_def Let_def)

lemma count_attempt_interrupted [simp]:
  "interrupted (fst (count_attempt b ag c)) = interrupted b"
  by (simp add: count_attempt_def Let_def)

lemma Build_place_interrupted [simp]:
  "interrupted (fst (state_of (Build_place E b ag c i ci tgt))) = interrupted b"
  by (simp add: Build_place_def Let_def)

lemma Build_target_interrupted [simp]:
  "interrupted (fst (state_of (Build_target E b ag org cur diff))) = interrupted b"
  by (simp add: Build_target_def Let_def split: sum.split)

lemma Build_act_interrupted [simp]:
  "interrupted (fst (state_of (Build_act E b ag org cur diff))) = interrupted b"
  by (simp add: Build_act_def Let_def split: sum.split)

lemma Build_step_interrupted: "\<not> interrupted (fst (state_of (Build_step E b ag)))"
  by (simp add: Build_step_def Let_def split: option.split)

lemma get_target_None:
  "(\<forall>c \<in> set (xyz_remaining d). astar E (world ag) c 2 = None) \<Longrightarrow> get_target E d ag = None"
  by (simp add: get_target_def find_None_iff)

subsection \<open>C4: Destroy with no reachable cell\<close>

text \<open>
  C4: for every Destroy task whose remaining cell set is non-empty, if the pathfinder
  reports no route to any remaining cell, the step sends the failure notification, sets
  finished, and changes nothing else: the remaining set stays as it was (non-empty), no
  block is dug, no child is pushed.
\<close>

theorem Destroy_step_no_route:
  "xyz_remaining d \<noteq> [] \<Longrightarrow>
   (\<forall>c \<in> set (xyz_remaining d). astar E (world ag) c 2 = None) \<Longrightarrow>
   Destroy_step E d ag =
     Return (d\<lparr>interrupted := False, finished := True\<rparr>,
             send_chat ag ''There's no path, so I'm giving up'')"
  by (simp add: Destroy_step_def Let_def get_target_None)

theorem Destroy_step_no_route_witness:
  "Destroy_step (sim_env no_route) (sim_destroy [(5, 0, 0), (9, 0, 0)])
      (sim_agent (0, 0, 0) [((5, 0, 0), (1, 0)), ((9, 0, 0), (1, 0))]) =
     Return ((sim_destroy [(5, 0, 0), (9, 0, 0)])\<lparr>interrupted := False, finished := True\<rparr>,
             send_chat (sim_agent (0, 0, 0) [((5, 0, 0), (1, 0)), ((9, 0, 0), (1, 0))])
               ''There's no path, so I'm giving up'')"
  by (rule Destroy_step_no_route) (simp_all add: sim_destroy_def sim_env_def no_route_def)

subsection \<open>C6: Move that starts within reach of its target\<close>

text \<open>
  C6: for every Move task whose target is within the approx radius (Manhattan distance) of
  the agent's position and whose replace set is empty, the first call to step returns with
  finished set and performs no world mutation: the world is unchanged, no dig, placement
  or movement primitive is called, and no child task or chat is issued.
\<close>

theorem Move_step_within_approx:
  "manhat_dist (pos E (world ag)) (target m) \<le> approx m \<Longrightarrow> replace m = [] \<Longrightarrow>
   returns (Move_step E m ag)
   \<and> finished (fst (state_of (Move_step E m ag)))
   \<and> world (snd (state_of (Move_step E m ag))) = world ag
   \<and> calls (snd (state_of (Move_step E m ag))) = calls ag
   \<and> task_stack (snd (state_of (Move_step E m ag))) = task_stack ag
   \<and> chats (snd (state_of (Move_step E m ag))) = chats ag"
  by (auto simp: Move_step_def Let_def split: option.splits)

theorem Move_step_within_approx_witness:
  "returns (Move_step (sim_env no_route) (Move_init (1, 0, 0) None None) (sim_agent (0, 0, 0) []))
   \<and> finished (fst (state_of
        (Move_step (sim_env no_route) (Move_init (1, 0, 0) None None) (sim_agent (0, 0, 0) []))))
   \<and> calls (snd (state_of
        (Move_step (sim_env no_route) (Move_init (1, 0, 0) None None) (sim_agent (0, 0, 0) []))))
      = []"
  using Move_step_within_approx [of "sim_env no_route" "sim_agent (0, 0, 0) []"
      "Move_init (1, 0, 0) None None"]
  by (simp add: sim_env_def sim_agent_def Move_init_def)

subsection \<open>C9: the interrupted flag\<close>

text \<open>
  C9, as stated, fails for Loop: its step never assigns the flag, so a Loop that was
  interrupted is still interrupted after its step.
\<close>

theorem Loop_step_keeps_interrupted_counterexample:
  "interrupted (fst (state_of
     (Loop_step (interrupt (Loop_init no_tasks never_stop)) (sim_agent (0, 0, 0) [])))) = True"
  by (simp add: Loop_step_def interrupt_def Loop_init_def never_stop_def no_tasks_def)

text \<open>
  C9 (amended): for every task variant, interrupt() sets the interrupted flag to true and
  has no other effect; the step of Dance, Move, Build and Destroy clears the flag, so after
  any step call on one of these four variants, returning or raising, interrupted is false.
\<close>

theorem interrupt_sets_flag_steps_clear:
  "interrupt t = t\<lparr>interrupted := True\<rparr>
   \<and> \<not> interrupted (fst (state_of (Dance_step d ag)))
   \<and> \<not> interrupted (fst (state_of (Move_step E m ag)))
   \<and> \<not> interrupted (fst (state_of (Build_step E b ag)))
   \<and> \<not> interrupted (fst (state_of (Destroy_step E ds ag)))"
  by (simp add: interrupt_def Dance_step_interrupted Move_step_interrupted
      Build_step_interrupted Destroy_step_interrupted)

subsection \<open>C7: the cell list of a Dig\<close>

lemma volume_product:
  "volume mx Mx my My mz Mz = List.product [mx..Mx] (List.product [my..My] [mz..Mz])"
  by (simp add: volume_def List.product_concat_map map_concat comp_def)

lemma distinct_volume: "distinct (volume mx Mx my My mz Mz)"
  by (simp add: volume_product distinct_product)

lemma length_volume:
  "length (volume mx Mx my My mz Mz) = nat (Mx - mx + 1) * (nat (My - my + 1) * nat (Mz - mz + 1))"
  by (simp add: volume_product)

lemma set_volume:
  "set (volume mx Mx my My mz Mz) = {mx..Mx} \<times> {my..My} \<times> {mz..Mz}"
  by (simp add: volume_product)

lemma all_below_range:
  "(\<forall>n<nat (M - m + 1). Q (int n + m)) \<longleftrightarrow> (\<forall>x\<in>{m..M}. Q x)"
proof
  assume a: "\<forall>n<nat (M - m + 1). Q (int n + m)"
  show "\<forall>x\<in>{m..M}. Q x"
  proof
    fix x assume "x \<in> {m..M}"
    then have "nat (x - m) < nat (M - m + 1)" "int (nat (x - m)) + m = x" by auto
    with a show "Q x" by metis
  qed
next
  assume a: "\<forall>x\<in>{m..M}. Q x"
  show "\<forall>n<nat (M - m + 1). Q (int n + m)"
  proof (intro allI impI)
    fix n assume "n < nat (M - m + 1)"
    then have "int n + m \<in> {m..M}" by auto
    with a show "Q (int n + m)" by blast
  qed
qed

lemma top_layer_passable_get_blocks:
  assumes "my \<le> My"
  shows "top_layer_passable E (get_blocks E w mx Mx my My mz Mz) =
     Inr (\<forall>x\<in>{mx..Mx}. \<forall>z\<in>{mz..Mz}. isin (fst (block_at E w (x, My, z))) (PASSABLE_BLOCKS E))"
proof -
  have sy: "int (nat (My - my + 1)) - 1 + my = My" "nat (My - my + 1) \<noteq> 0"
    using assms by auto
  have "(\<forall>z<nat (Mz - mz + 1). \<forall>x<nat (Mx - mx + 1).
           isin (fst (block_at E w (int x + mx, My, int z + mz))) (PASSABLE_BLOCKS E))
        \<longleftrightarrow> (\<forall>z\<in>{mz..Mz}. \<forall>x\<in>{mx..Mx}. isin (fst (block_at E w (x, My, z))) (PASSABLE_BLOCKS E))"
    by (simp add: all_below_range [where Q = "\<lambda>x. isin (fst (block_at E w (x, My, _))) (PASSABLE_BLOCKS E)"]
          all_below_range [where Q = "\<lambda>z. \<forall>x\<in>{mx..Mx}. isin (fst (block_at E w (x, My, z))) (PASSABLE_BLOCKS E)"])
  then show ?thesis
    using sy by (auto simp: top_layer_passable_def get_blocks_def list_all_iff)
qed


lemma strip_fill_idmeta [simp]: "strip_idmeta (fill_idmeta E ag ps) = ps"
  by (simp add: strip_idmeta_def fill_idmeta_def comp_def)

lemma Destroy_init_fill_idmeta:
  assumes "ps \<noteq> []" "distinct ps"
  shows "\<exists>d. Destroy_init E ag (fill_idmeta E ag ps) msg f = Inr d \<and> xyz_remaining d = ps
           \<and> strip_idmeta (destroy_schematic d) = ps \<and> dig_message d = msg"
  using assms by (cases ps) (simp_all add: Destroy_init_def Let_def)

lemma volume_nonempty: "mx \<le> Mx \<Longrightarrow> my \<le> My \<Longrightarrow> mz \<le> Mz \<Longrightarrow> volume mx Mx my My mz Mz \<noteq> []"
  by (metis atLeastAtMost_iff empty_iff empty_set mem_Sigma_iff order_refl set_volume)

lemma Dig_poss_eq:
  assumes "1 \<le> dig_depth t" "dig_origin t = (mx, My, mz)"
  shows "Dig_poss E t ag = Inr (volume mx (mx + (dig_width t - 1))
     (if (\<forall>x\<in>{mx..mx + (dig_width t - 1)}. \<forall>z\<in>{mz..mz + (dig_length t - 1)}.
            isin (fst (block_at E (world ag) (x, My, z))) (PASSABLE_BLOCKS E))
      then My - (dig_depth t - 1) - 1 else My - (dig_depth t - 1)) My mz (mz + (dig_length t - 1)))"
  using assms by (simp add: Dig_poss_def Let_def top_layer_passable_get_blocks)

text \<open>
  C7, as stated, fails: when the top layer is passable the code lowers the bottom of the
  volume and keeps its top, so the cell list grows by one layer instead of being shifted.
  A 1 x 1 x 1 Dig at the origin in open air hands two cells to Destroy; the shifted volume
  has one.
\<close>

theorem Dig_step_extends_counterexample:
  "map_option xyz_remaining (destroy_task (fst (state_of
      (Dig_step (sim_env no_route) (Dig_init (0, 0, 0) 1 1 1) (sim_agent (0, 5, 0) [])))))
     = Some [(0, -1, 0), (0, 0, 0)]
   \<and> volume 0 0 (-1) (-1) 0 0 = [(0, -1, 0)]"
  by (simp add: Dig_step_def Dig_poss_def Dig_init_def sim_env_def sim_agent_def
      top_layer_passable_def get_blocks_def volume_def Let_def isin_def sim_block_at_def
      upto.simps Destroy_init_def fill_idmeta_def strip_idmeta_def)

text \<open>
  C7 (amended): for every Dig task with length, width and depth at least 1, if the topmost
  layer of the computed rectangular volume consists entirely of passable blocks, the cell
  list handed to the Destroy child is that volume extended by one further layer below it
  (the original cells are all kept and width * length cells are added); otherwise it is
  exactly the original volume. In either case Dig pushes one Destroy child (with the dig
  message set) over that cell list and finishes on its first step.
\<close>

theorem Dig_step_cells:
  assumes "1 \<le> dig_length t" "1 \<le> dig_width t" "1 \<le> dig_depth t"
    and "dig_origin t = (mx, My, mz)"
    and "Mx = mx + (dig_width t - 1)" "my = My - (dig_depth t - 1)" "Mz = mz + (dig_length t - 1)"
    and "open_top \<longleftrightarrow> (\<forall>x\<in>{mx..Mx}. \<forall>z\<in>{mz..Mz}.
            isin (fst (block_at E (world ag) (x, My, z))) (PASSABLE_BLOCKS E))"
    and "poss = (if open_top then volume mx Mx (my - 1) My mz Mz else volume mx Mx my My mz Mz)"
  shows "(\<exists>d. Dig_step E t ag =
            Return (t\<lparr>destroy_task := Some d, finished := True\<rparr>,
                    task_stack_push ag (TDestroy d) (memid t))
          \<and> xyz_remaining d = poss \<and> strip_idmeta (destroy_schematic d) = poss \<and> dig_message d)
       \<and> set (volume mx Mx (my - 1) My mz Mz) =
           set (volume mx Mx my My mz Mz) \<union> set (volume mx Mx (my - 1) (my - 1) mz Mz)
       \<and> length (volume mx Mx (my - 1) My mz Mz) =
           length (volume mx Mx my My mz Mz) + nat (dig_width t * dig_length t)"
proof (intro conjI)
  have le: "mx \<le> Mx" "my \<le> My" "mz \<le> Mz" "my - 1 \<le> My" using assms by auto
  have p: "Dig_poss E t ag = Inr poss"
    using assms by (simp add: Dig_poss_eq)
  have ne: "poss \<noteq> []" and d: "distinct poss"
    using le assms(9) by (auto simp: volume_nonempty distinct_volume)
  from Destroy_init_fill_idmeta [OF ne d, of E ag True None]
  obtain d where "Destroy_init E ag (fill_idmeta E ag poss) True None = Inr d"
    "xyz_remaining d = poss" "strip_idmeta (destroy_schematic d) = poss" "dig_message d"
    by auto
  with p show "\<exists>d. Dig_step E t ag =
            Return (t\<lparr>destroy_task := Some d, finished := True\<rparr>,
                    task_stack_push ag (TDestroy d) (memid t))
          \<and> xyz_remaining d = poss \<and> strip_idmeta (destroy_schematic d) = poss \<and> dig_message d"
    by (intro exI [of _ d]) (simp add: Dig_step_def)
  show "set (volume mx Mx (my - 1) My mz Mz) =
           set (volume mx Mx my My mz Mz) \<union> set (volume mx Mx (my - 1) (my - 1) mz Mz)"
    using le by (auto simp: set_volume)
  have "nat (My - (my - 1) + 1) = nat (My - my + 1) + 1" using le by auto
  moreover have "nat (Mx - mx + 1) = nat (dig_width t)" "nat (Mz - mz + 1) = nat (dig_length t)"
    using assms by auto
  ultimately show "length (volume mx Mx (my - 1) My mz Mz) =
           length (volume mx Mx my My mz Mz) + nat (dig_width t * dig_length t)"
    using assms(1,2) by (simp add: length_volume nat_mult_distrib algebra_simps)
qed

theorem Dig_step_cells_witness:
  "\<exists>d. Dig_step (sim_env no_route) (Dig_init (0, 0, 0) 2 1 1) (sim_agent (0, 5, 0) []) =
         Return ((Dig_init (0, 0, 0) 2 1 1)\<lparr>destroy_task := Some d, finished := True\<rparr>,
                 task_stack_push (sim_agent (0, 5, 0) []) (TDestroy d) None)
       \<and> xyz_remaining d = [(0, -1, 0), (0, -1, 1), (0, 0, 0), (0, 0, 1)]"
proof -
  have h: "True \<longleftrightarrow> (\<forall>x\<in>{0..0}. \<forall>z\<in>{0..1}.
      isin (fst (block_at (sim_env no_route) (world (sim_agent (0, 5, 0) [])) (x, 0, z)))
        (PASSABLE_BLOCKS (sim_env no_route)))"
    by (simp add: sim_env_def sim_agent_def sim_block_at_def isin_def)
  have v: "volume 0 0 (-1) 0 0 1 = [(0, -1, 0), (0, -1, 1), (0, 0, 0), (0, 0, 1)]"
    by (simp add: volume_def upto.simps)
  from Dig_step_cells [of "Dig_init (0, 0, 0) 2 1 1" 0 0 0 0 0 1 True "sim_env no_route"
      "sim_agent (0, 5, 0) []" "[(0, -1, 0), (0, -1, 1), (0, 0, 0), (0, 0, 1)]", OF _ _ _ _ _ _ _ h]
  have "\<exists>d. Dig_step (sim_env no_route) (Dig_init (0, 0, 0) 2 1 1) (sim_agent (0, 5, 0) []) =
         Return ((Dig_init (0, 0, 0) 2 1 1)\<lparr>destroy_task := Some d, finished := True\<rparr>,
                 task_stack_push (sim_agent (0, 5, 0) []) (TDestroy d) None)
       \<and> xyz_remaining d = [(0, -1, 0), (0, -1, 1), (0, 0, 0), (0, 0, 1)]
       \<and> strip_idmeta (destroy_schematic d) = [(0, -1, 0), (0, -1, 1), (0, 0, 0), (0, 0, 1)]
       \<and> dig_message d"
    by (simp add: Dig_init_def v)
  then show ?thesis by blast
qed

subsection \<open>Frames of the parts of Build.step\<close>

lemma fold_conj_pairs:
  "fold (\<lambda>(p, q) d. d \<and> F p q) ps d0 \<longleftrightarrow> d0 \<and> (\<forall>(p, q)\<in>set ps. F p q)"
  by (induction ps arbitrary: d0) auto

lemma Build_diff_iff:
  "Build_diff E b current c \<longleftrightarrow>
     fst (cells current c) \<noteq> fst (cells (schematic b) c)
     \<and> attempts b c \<noteq> 0
     \<and> \<not> isin (fst (cells current c)) (BUILD_IGNORE_BLOCKS E)
     \<and> (embed b \<longrightarrow> fst (cells (schematic b) c) \<noteq> 0)
     \<and> (\<forall>(p, q)\<in>set (BUILD_INTERCHANGEABLE_PAIRS E).
           \<not> isin (fst (cells current c)) [p, q] \<or> \<not> isin (fst (cells (schematic b) c)) [p, q])"
  by (auto simp: Build_diff_def Let_def fold_conj_pairs word_gt_0)

lemma np_any_iff: "np_any s m \<longleftrightarrow> (\<exists>c\<in>set (indices s). m c)"
  by (simp add: np_any_def list_ex_iff)

lemma save_undo_state_frame [simp]:
  "finished (save_undo_state b cur org) = finished b"
  "attempts (save_undo_state b cur org) = attempts b"
  "schematic (save_undo_state b cur org) = schematic b"
  "embed (save_undo_state b cur org) = embed b"
  "origin (save_undo_state b cur org) = origin b"
  by (simp_all add: save_undo_state_def Let_def split: option.split sum.split)

lemma Build_finish_frame [simp]:
  "attempts (fst (state_of (Build_finish E b ag))) = attempts b"
  "schematic (fst (state_of (Build_finish E b ag))) = schematic b"
  "embed (fst (state_of (Build_finish E b ag))) = embed b"
  "origin (fst (state_of (Build_finish E b ag))) = origin b"
  "world (snd (state_of (Build_finish E b ag))) = world ag"
  "calls (snd (state_of (Build_finish E b ag))) = calls ag"
  by (simp_all add: Build_finish_def Let_def send_chat_def split: option.split list.split prod.split)

lemma Build_finish_finished:
  "finished (fst (state_of (Build_finish E b ag))) \<longleftrightarrow> returns (Build_finish E b ag) \<or> finished b"
  by (simp add: Build_finish_def Let_def split: option.split list.split prod.split)

lemma place_target_finished [simp]: "finished (fst (place_target E b ag i tgt)) = finished b"
  by (simp add: place_target_def Let_def)

lemma count_attempt_finished [simp]: "finished (fst (count_attempt b ag c)) = finished b"
  by (simp add: count_attempt_def Let_def)

lemma step_any_dir_finished [simp]: "finished (fst (state_of (step_any_dir E b ag))) = finished b"
  by (simp add: step_any_dir_def Let_def split: list.split prod.split)

lemma Build_place_finished [simp]:
  "finished (fst (state_of (Build_place E b ag c i ci tgt))) = finished b"
  by (simp add: Build_place_def Let_def)

lemma Build_target_finished [simp]:
  "finished (fst (state_of (Build_target E b ag org cur diff))) = finished b"
  by (simp add: Build_target_def Let_def split: sum.split)

lemma Build_act_finished [simp]:
  "finished (fst (state_of (Build_act E b ag org cur diff))) = finished b"
  by (simp add: Build_act_def Let_def split: sum.split)

lemma Build_current_cells:
  "cells (Build_current E b ag org) c = block_at E (world ag) (addv (to_xyz c) org)"
  by (simp add: Build_current_def get_blocks_def split: prod.split)

lemma Build_diff_cong:
  "attempts b' = attempts b \<Longrightarrow> schematic b' = schematic b \<Longrightarrow> embed b' = embed b \<Longrightarrow>
   Build_diff E b' cur = Build_diff E b cur"
  by (rule ext) (simp add: Build_diff_def)

lemma get_next_target_cong:
  "attempts b' = attempts b \<Longrightarrow> get_next_target b' rel cs = get_next_target b rel cs"
  by (simp add: get_next_target_def)

lemma get_next_target_mem: "get_next_target b rel cs = Inr c \<Longrightarrow> c \<in> set cs"
proof -
  assume a: "get_next_target b rel cs = Inr c"
  let ?s = "sort_key (\<lambda>yzx. yzx = to_yzx rel \<or> yzx = addv (to_yzx rel) (1, 0, 0))
              (sort_key (\<lambda>yzx. fst yzx) (sort_key (\<lambda>yzx. - attempts b yzx)
                 (sort_key (\<lambda>yzx. manhat_dist yzx (to_yzx rel)) cs)))"
  from a obtain rest where "?s = c # rest"
    by (auto simp: get_next_target_def Let_def split: list.splits)
  then have "c \<in> set ?s" by (metis list.set_intros(1))
  moreover have "set ?s = set cs" by simp
  ultimately show "c \<in> set cs" by blast
qed

lemma place_target_attempts [simp]: "attempts (fst (place_target E b ag i tgt)) = attempts b"
  by (simp add: place_target_def Let_def)

lemma count_attempt_attempts [simp]:
  "attempts (fst (count_attempt b ag c)) = (attempts b)(c := attempts b c - 1)"
  by (simp add: count_attempt_def Let_def)

lemma step_any_dir_attempts [simp]: "attempts (fst (state_of (step_any_dir E b ag))) = attempts b"
  by (simp add: step_any_dir_def Let_def split: list.split prod.split)

lemma Build_place_attempts:
  "attempts (fst (state_of (Build_place E b ag c i ci tgt))) = attempts b
   \<or> attempts (fst (state_of (Build_place E b ag c i ci tgt))) = (attempts b)(c := attempts b c - 1)"
  by (simp add: Build_place_def Let_def)

lemma Build_target_attempts:
  "attempts (fst (state_of (Build_target E b ag org cur diff))) = attempts b
   \<or> (\<exists>c. get_next_target b (subv (pos E (world ag)) org) (argwhere (shape (schematic b)) diff) = Inr c
        \<and> attempts (fst (state_of (Build_target E b ag org cur diff))) = (attempts b)(c := attempts b c - 1))"
proof (cases "get_next_target b (subv (pos E (world ag)) org) (argwhere (shape (schematic b)) diff)")
  case (Inl e)
  then show ?thesis by (simp add: Build_target_def)
next
  case (Inr c)
  from Build_place_attempts [of E b ag c "cells (schematic b) c" "cells cur c" "addv (to_xyz c) org"]
  show ?thesis
    by (simp add: Build_target_def Let_def Inr)
qed

lemma Build_act_attempts:
  "attempts (fst (state_of (Build_act E b ag org cur diff))) = attempts b
   \<or> (\<exists>c. get_next_target b (subv (pos E (world ag)) org) (argwhere (shape (schematic b)) diff) = Inr c
        \<and> attempts (fst (state_of (Build_act E b ag org cur diff))) = (attempts b)(c := attempts b c - 1))"
  using Build_target_attempts [of E b ag org cur diff]
  by (simp add: Build_act_def Let_def split: sum.split)

lemma Build_step_attempts:
  "attempts (fst (state_of (Build_step E b ag))) = attempts b
   \<or> (\<exists>org c. origin b = Some org
        \<and> get_next_target b (subv (pos E (world ag)) org)
             (argwhere (shape (schematic b)) (Build_diff E b (Build_current E b ag org))) = Inr c
        \<and> attempts (fst (state_of (Build_step E b ag))) = (attempts b)(c := attempts b c - 1))"
proof (cases "origin b")
  case None
  then show ?thesis by (simp add: Build_step_def)
next
  case (Some org)
  let ?cur = "Build_current E b ag org"
  let ?b1 = "save_undo_state (b\<lparr>interrupted := False\<rparr>) ?cur org"
  have cur: "Build_current E (b\<lparr>interrupted := False\<rparr>) ag org = ?cur"
    by (simp add: Build_current_def)
  have d: "Build_diff E ?b1 ?cur = Build_diff E b ?cur"
    by (rule Build_diff_cong) simp_all
  have g: "\<And>rel cs. get_next_target ?b1 rel cs = get_next_target b rel cs"
    by (rule get_next_target_cong) simp
  show ?thesis
  proof (cases "np_any (shape (schematic b)) (Build_diff E b ?cur)")
    case False
    with Some show ?thesis by (simp add: Build_step_def Let_def cur d)
  next
    case True
    with Some have "Build_step E b ag = Build_act E ?b1 ag org ?cur (Build_diff E b ?cur)"
      by (simp add: Build_step_def Let_def cur d)
    with Build_act_attempts [of E ?b1 ag org ?cur "Build_diff E b ?cur"] Some
    show ?thesis by (simp add: g)
  qed
qed


lemma Build_diff_attempts: "Build_diff E b cur c \<Longrightarrow> 0 < attempts b c"
  by (cases "embed b") (auto simp: Build_diff_def Let_def fold_conj_pairs)

lemma Build_step_attempts_cell:
  fixes E :: "('w, 'm) env" and ag :: "('w, 'm) agent"
  shows "attempts (fst (state_of (Build_step E b ag))) c = attempts b c
   \<or> (0 < attempts b c
       \<and> attempts (fst (state_of (Build_step E b ag))) = (attempts b)(c := attempts b c - 1)
       \<and> (\<exists>org. origin b = Some org \<and> Build_diff E b (Build_current E b ag org) c
             \<and> get_next_target b (subv (pos E (world ag)) org)
                  (argwhere (shape (schematic b)) (Build_diff E b (Build_current E b ag org))) = Inr c))"
proof -
  from Build_step_attempts [of E b ag]
  consider "attempts (fst (state_of (Build_step E b ag))) = attempts b"
    | org c0 where "origin b = Some org"
        "get_next_target b (subv (pos E (world ag)) org)
             (argwhere (shape (schematic b)) (Build_diff E b (Build_current E b ag org))) = Inr c0"
        "attempts (fst (state_of (Build_step E b ag))) = (attempts b)(c0 := attempts b c0 - 1)"
    by blast
  then show ?thesis
  proof cases
    case 1
    then show ?thesis by simp
  next
    case 2
    from get_next_target_mem [OF 2(2)]
    have d: "Build_diff E b (Build_current E b ag org) c0" by (simp add: argwhere_def)
    show ?thesis
    proof (cases "c = c0")
      case True
      with 2 d Build_diff_attempts [OF d] show ?thesis by auto
    next
      case False
      with 2 show ?thesis by simp
    qed
  qed
qed

lemma unat_pred: "0 < (a :: 8 word) \<Longrightarrow> unat (a - 1) = unat a - 1"
  by (simp add: unat_minus_one word_neq_0_conv)

lemma Build_step_attempts_le:
  "unat (attempts (fst (state_of (Build_step E b ag))) c) \<le> unat (attempts b c)"
  using Build_step_attempts_cell [of E b ag c] by (auto simp: unat_pred)

lemma Build_run_attempts_le:
  "unat (attempts (Build_run E b ags) c) \<le> unat (attempts b c)"
proof (induction ags arbitrary: b)
  case Nil
  show ?case by (simp add: Build_run_def)
next
  case (Cons ag ags)
  have "Build_run E b (ag # ags) = Build_run E (fst (state_of (Build_step E b ag))) ags"
    by (simp add: Build_run_def)
  with Cons [of "fst (state_of (Build_step E b ag))"] Build_step_attempts_le [of E b ag c]
  show ?case by simp
qed

lemma Build_init_attempts: "Build_init E ag td f = Inr b \<Longrightarrow> attempts b c = 3"
  by (auto simp: Build_init_def Let_def split: sum.splits if_splits option.splits prod.splits)


lemmas sim_eval =
  sim_build_def Build_init_def sim_task_data_def blocks_list_to_npy_def np_min_def np_max_def
  strip_idmeta_def dict_get_def Let_def Build_step_def Build_current_def get_blocks_def
  save_undo_state_def npy_to_blocks_list_def indices_def sim_env_def sim_agent_def
  sim_block_at_def Build_diff_def isin_def replace_bad_blocks_def np_any_def Build_act_def
  argwhere_def Build_target_def get_next_target_def PLACE_REACH_def Build_place_def
  place_target_def count_attempt_def agent_set_held_item_def agent_place_block_def
  sim_place_block_def Build_finish_def send_chat_def

lemma sim_build_one:
  "Build_init (sim_env no_route) (sim_agent (0, 0, 0) [])
     (sim_task_data [((0, 64, 0), (1, 0))] (0, 64, 0) False) None
   = Inr (sim_build [((0, 64, 0), (1, 0))] (0, 64, 0) False)"
  by (simp add: sim_eval)

subsection \<open>C1: Build finishes exactly on an empty diff mask\<close>

text \<open>
  C1: a step of an unfinished Build (with an origin) runs the finish routine exactly when
  the diff mask it computed has no true cell; and when that step leaves the task finished,
  it returned, it left the world as it was, and every cell of the schematic grid has the
  world's current block-type equal to the schematic's, or an attempts counter of 0, or a
  current type in the ignore set, or (with embed) no block intended by the schematic, or
  current and schematic types both in one declared interchangeable pair.
\<close>

theorem Build_step_finish:
  fixes E :: "('w, 'm) env" and ag :: "('w, 'm) agent" and b :: build and org :: xyz
  assumes "origin b = Some org" and "\<not> finished b"
  defines "b1 \<equiv> save_undo_state (b\<lparr>interrupted := False\<rparr>) (Build_current E b ag org) org"
  defines "diff \<equiv> Build_diff E b1 (Build_current E b ag org)"
  defines "r \<equiv> Build_step E b ag"
  shows "(\<not> np_any (shape (schematic b)) diff \<longrightarrow> r = Build_finish E b1 ag)
    \<and> (finished (fst (state_of r)) \<longrightarrow>
         \<not> np_any (shape (schematic b)) diff \<and> returns r
         \<and> world (snd (state_of r)) = world ag
         \<and> (\<forall>c\<in>set (indices (shape (schematic (fst (state_of r))))).
              fst (block_at E (world (snd (state_of r))) (addv (to_xyz c) org))
                = fst (cells (schematic (fst (state_of r))) c)
              \<or> attempts (fst (state_of r)) c = 0
              \<or> isin (fst (block_at E (world (snd (state_of r))) (addv (to_xyz c) org)))
                   (BUILD_IGNORE_BLOCKS E)
              \<or> (embed (fst (state_of r)) \<and> fst (cells (schematic (fst (state_of r))) c) = 0)
              \<or> (\<exists>(p, q)\<in>set (BUILD_INTERCHANGEABLE_PAIRS E).
                    isin (fst (block_at E (world (snd (state_of r))) (addv (to_xyz c) org))) [p, q]
                    \<and> isin (fst (cells (schematic (fst (state_of r))) c)) [p, q])))"
proof -
  have cur: "Build_current E (b\<lparr>interrupted := False\<rparr>) ag org = Build_current E b ag org"
    by (simp add: Build_current_def)
  have step: "r = (if \<not> np_any (shape (schematic b)) diff then Build_finish E b1 ag
                   else Build_act E b1 ag org (Build_current E b ag org) diff)"
    using assms(1) by (simp add: r_def Build_step_def Let_def cur b1_def diff_def)
  show ?thesis
  proof (cases "np_any (shape (schematic b)) diff")
    case True
    with step have "r = Build_act E b1 ag org (Build_current E b ag org) diff" by simp
    then have "finished (fst (state_of r)) = finished b" by (simp add: b1_def)
    with True assms(2) show ?thesis by simp
  next
    case False
    with step have r: "r = Build_finish E b1 ag" by simp
    have settled: "\<forall>c\<in>set (indices (shape (schematic b))). \<not> Build_diff E b1 (Build_current E b ag org) c"
      using False by (simp add: np_any_iff diff_def)
    have fin: "finished (fst (state_of r)) \<longrightarrow> returns r"
      using assms(2) by (simp add: r Build_finish_finished b1_def)
    have "\<forall>c\<in>set (indices (shape (schematic b))).
              fst (block_at E (world ag) (addv (to_xyz c) org)) = fst (cells (schematic b) c)
              \<or> attempts b c = 0
              \<or> isin (fst (block_at E (world ag) (addv (to_xyz c) org))) (BUILD_IGNORE_BLOCKS E)
              \<or> (embed b \<and> fst (cells (schematic b) c) = 0)
              \<or> (\<exists>(p, q)\<in>set (BUILD_INTERCHANGEABLE_PAIRS E).
                    isin (fst (block_at E (world ag) (addv (to_xyz c) org))) [p, q]
                    \<and> isin (fst (cells (schematic b) c)) [p, q])"
    proof
      fix c assume "c \<in> set (indices (shape (schematic b)))"
      with settled have "\<not> Build_diff E b1 (Build_current E b ag org) c" by blast
      then show "fst (block_at E (world ag) (addv (to_xyz c) org)) = fst (cells (schematic b) c)
              \<or> attempts b c = 0
              \<or> isin (fst (block_at E (world ag) (addv (to_xyz c) org))) (BUILD_IGNORE_BLOCKS E)
              \<or> (embed b \<and> fst (cells (schematic b) c) = 0)
              \<or> (\<exists>(p, q)\<in>set (BUILD_INTERCHANGEABLE_PAIRS E).
                    isin (fst (block_at E (world ag) (addv (to_xyz c) org))) [p, q]
                    \<and> isin (fst (cells (schematic b) c)) [p, q])"
        unfolding Build_diff_iff Build_current_cells b1_def by (simp (no_asm_use)) blast
    qed
    with fin False show ?thesis
      by (simp add: r b1_def)
  qed
qed

theorem Build_step_finish_witness:
  "finished (fst (state_of (Build_step (sim_env no_route)
       (sim_build [((0, 64, 0), (1, 0))] (0, 64, 0) False)
       (sim_agent (1, 64, 0) [((0, 64, 0), (1, 0))]))))
   \<and> returns (Build_step (sim_env no_route)
       (sim_build [((0, 64, 0), (1, 0))] (0, 64, 0) False)
       (sim_agent (1, 64, 0) [((0, 64, 0), (1, 0))]))
   \<and> world (snd (state_of (Build_step (sim_env no_route)
       (sim_build [((0, 64, 0), (1, 0))] (0, 64, 0) False)
       (sim_agent (1, 64, 0) [((0, 64, 0), (1, 0))]))))
     = world (sim_agent (1, 64, 0) [((0, 64, 0), (1, 0))])"
proof -
  have fin: "finished (fst (state_of (Build_step (sim_env no_route)
       (sim_build [((0, 64, 0), (1, 0))] (0, 64, 0) False)
       (sim_agent (1, 64, 0) [((0, 64, 0), (1, 0))]))))"
    by (simp add: sim_eval)
  have org: "origin (sim_build [((0, 64, 0), (1, 0))] (0, 64, 0) False) = Some (0, 64, 0)"
    and nf: "\<not> finished (sim_build [((0, 64, 0), (1, 0))] (0, 64, 0) False)"
    by (simp_all add: sim_eval)
  from Build_step_finish [OF org nf, of "sim_env no_route"
      "sim_agent (1, 64, 0) [((0, 64, 0), (1, 0))]"] fin
  show ?thesis by blast
qed

subsection \<open>C3: the attempts counters\<close>

text \<open>
  C3: the attempts counter of every cell starts at 3; over every sequence of step calls,
  whatever happens to the world in between, it never increases and never wraps below 0;
  one step lowers it by at most one, and only for one cell, the cell that the target
  selection returned from the diff mask, whose counter was above 0.
\<close>

theorem attempts_never_increase:
  fixes E :: "('w, 'm) env" and ag ag0 :: "('w, 'm) agent" and b :: build
  defines "b' \<equiv> fst (state_of (Build_step E b ag))"
  shows "(Build_init E ag0 td f = Inr b0 \<longrightarrow>
            attempts b0 c = 3 \<and> unat (attempts (Build_run E b0 ags) c) \<le> 3)
    \<and> unat (attempts (Build_run E b ags) c) \<le> unat (attempts b c)
    \<and> unat (attempts b' c) \<le> unat (attempts b c)
    \<and> unat (attempts b c) \<le> unat (attempts b' c) + 1
    \<and> (attempts b' c \<noteq> attempts b c \<longrightarrow>
          0 < attempts b c
          \<and> (\<forall>c2. c2 \<noteq> c \<longrightarrow> attempts b' c2 = attempts b c2)
          \<and> (\<exists>org. origin b = Some org \<and> Build_diff E b (Build_current E b ag org) c
                \<and> get_next_target b (subv (pos E (world ag)) org)
                     (argwhere (shape (schematic b))
                        (Build_diff E b (Build_current E b ag org))) = Inr c))"
proof (intro conjI impI)
  assume i: "Build_init E ag0 td f = Inr b0"
  then show "attempts b0 c = 3" by (rule Build_init_attempts)
  with Build_run_attempts_le [of E b0 ags c]
  show "unat (attempts (Build_run E b0 ags) c) \<le> 3" by simp
next
  show "unat (attempts (Build_run E b ags) c) \<le> unat (attempts b c)"
    by (rule Build_run_attempts_le)
  show "unat (attempts b' c) \<le> unat (attempts b c)"
    unfolding b'_def by (rule Build_step_attempts_le)
  show "unat (attempts b c) \<le> unat (attempts b' c) + 1"
    using Build_step_attempts_cell [of E b ag c] unfolding b'_def by (auto simp: unat_pred)
next
  assume ne: "attempts b' c \<noteq> attempts b c"
  with Build_step_attempts_cell [of E b ag c]
  have *: "0 < attempts b c" "attempts b' = (attempts b)(c := attempts b c - 1)"
    "\<exists>org. origin b = Some org \<and> Build_diff E b (Build_current E b ag org) c
             \<and> get_next_target b (subv (pos E (world ag)) org)
                  (argwhere (shape (schematic b)) (Build_diff E b (Build_current E b ag org))) = Inr c"
    unfolding b'_def by blast+
  show "0 < attempts b c" by (rule *(1))
  show "\<forall>c2. c2 \<noteq> c \<longrightarrow> attempts b' c2 = attempts b c2" by (simp add: *(2))
  show "\<exists>org. origin b = Some org \<and> Build_diff E b (Build_current E b ag org) c
                \<and> get_next_target b (subv (pos E (world ag)) org)
                     (argwhere (shape (schematic b))
                        (Build_diff E b (Build_current E b ag org))) = Inr c" by (rule *(3))
qed

theorem attempts_never_increase_witness:
  "attempts (sim_build [((0, 64, 0), (1, 0))] (0, 64, 0) False) (0, 0, 0) = 3
   \<and> attempts (fst (state_of (Build_step (sim_env no_route)
        (sim_build [((0, 64, 0), (1, 0))] (0, 64, 0) False) (sim_agent (1, 64, 0) []))))
        (0, 0, 0) = 2
   \<and> 0 < attempts (sim_build [((0, 64, 0), (1, 0))] (0, 64, 0) False) (0, 0, 0)
   \<and> unat (attempts (Build_run (sim_env no_route)
        (sim_build [((0, 64, 0), (1, 0))] (0, 64, 0) False)
        [sim_agent (1, 64, 0) [], sim_agent (1, 64, 0) []]) (0, 0, 0)) \<le> 3"
proof -
  have two: "attempts (fst (state_of (Build_step (sim_env no_route)
        (sim_build [((0, 64, 0), (1, 0))] (0, 64, 0) False) (sim_agent (1, 64, 0) []))))
        (0, 0, 0) = 2"
    by (simp add: sim_eval)
  from attempts_never_increase [of "sim_env no_route" "sim_agent (0, 0, 0) []"
      "sim_task_data [((0, 64, 0), (1, 0))] (0, 64, 0) False" None
      "sim_build [((0, 64, 0), (1, 0))] (0, 64, 0) False" "(0, 0, 0)"
      "[sim_agent (1, 64, 0) [], sim_agent (1, 64, 0) []]"
      "sim_build [((0, 64, 0), (1, 0))] (0, 64, 0) False" "sim_agent (1, 64, 0) []"]
    sim_build_one two
  show ?thesis by simp
qed

subsection \<open>C2: the target cell of a Build\<close>

lemma uint_neg_u8: "(a :: 8 word) \<noteq> 0 \<Longrightarrow> uint (- a) = 256 - uint a"
proof -
  assume "a \<noteq> 0"
  then have "0 < uint a" using uint_nonnegative [of a] uint_0_iff [of a] by linarith
  moreover have "uint a < 256" using uint_lt2p [of a] by simp
  ultimately have "(- uint a) mod 256 = 256 - uint a"
    by (simp add: zmod_zminus1_eq_if)
  then show ?thesis by (simp add: uint_word_ariths)
qed

lemma neg_u8_le: "(a :: 8 word) \<noteq> 0 \<Longrightarrow> b \<noteq> 0 \<Longrightarrow> - a \<le> - b \<longleftrightarrow> - uint a \<le> - uint b"
  by (simp add: word_le_def uint_neg_u8)

lemma insort_key_cong_order:
  assumes "\<And>y. y \<in> set ys \<Longrightarrow> (f x \<le> f y \<longleftrightarrow> g x \<le> g y)"
  shows "insort_key f x ys = insort_key g x ys"
  using assms by (induction ys) auto

lemma sort_key_cong_order:
  assumes "\<And>x y. x \<in> set xs \<Longrightarrow> y \<in> set xs \<Longrightarrow> (f x \<le> f y \<longleftrightarrow> g x \<le> g y)"
  shows "sort_key f xs = sort_key g xs"
  using assms
proof (induction xs)
  case Nil
  show ?case by simp
next
  case (Cons x xs)
  have "sort_key f xs = sort_key g xs" using Cons by simp
  moreover have "insort_key f x (sort_key g xs) = insort_key g x (sort_key g xs)"
    by (rule insort_key_cong_order) (simp add: Cons.prems)
  ultimately show ?case by simp
qed

lemma sorted_insort_key_pair:
  assumes "sorted (map (\<lambda>x. (g x, f x)) ys)" and "\<And>y. y \<in> set ys \<Longrightarrow> f x \<le> f y"
  shows "sorted (map (\<lambda>x. (g x, f x)) (insort_key g x ys))"
  using assms
proof (induction ys)
  case Nil
  show ?case by simp
next
  case (Cons y ys)
  show ?case
  proof (cases "g x \<le> g y")
    case True
    have "\<forall>z\<in>set (y # ys). (g x, f x) \<le> (g z, f z)"
    proof
      fix z assume z: "z \<in> set (y # ys)"
      have "(g y, f y) \<le> (g z, f z)" using Cons.prems(1) z by auto
      then have "g y \<le> g z" by (auto simp: less_eq_prod_def)
      with True have "g x \<le> g z" by simp
      moreover have "f x \<le> f z" using Cons.prems(2) z by blast
      ultimately show "(g x, f x) \<le> (g z, f z)" by (auto simp: less_eq_prod_def)
    qed
    with True Cons.prems(1) show ?thesis by simp
  next
    case False
    then have "(g y, f y) \<le> (g x, f x)" by (auto simp: less_eq_prod_def)
    moreover have "sorted (map (\<lambda>x. (g x, f x)) (insort_key g x ys))"
      using Cons by simp
    ultimately show ?thesis using False Cons.prems(1)
      by (auto simp: set_insort_key)
  qed
qed

lemma sorted_sort_key_pair:
  "sorted (map f xs) \<Longrightarrow> sorted (map (\<lambda>x. (g x, f x)) (sort_key g xs))"
proof (induction xs)
  case Nil
  show ?case by simp
next
  case (Cons x xs)
  then have a: "sorted (map (\<lambda>x. (g x, f x)) (sort_key g xs))" by simp
  have b: "\<And>y. y \<in> set (sort_key g xs) \<Longrightarrow> f x \<le> f y" using Cons.prems by auto
  show ?case unfolding sort_key_simps by (rule sorted_insort_key_pair [OF a b])
qed

lemma sort_key_twice:
  "sort_key g (sort_key f xs) = sort_key (\<lambda>x. (g x, f x)) xs"
proof (rule properties_for_sort_key [symmetric])
  show "mset (sort_key g (sort_key f xs)) = mset xs" by simp
  show "sorted (map (\<lambda>x. (g x, f x)) (sort_key g (sort_key f xs)))"
    by (rule sorted_sort_key_pair) simp
  fix k assume "k \<in> set (sort_key g (sort_key f xs))"
  have "filter (\<lambda>x. (g k, f k) = (g x, f x)) (sort_key g (sort_key f xs))
        = filter (\<lambda>x. f x = f k) (filter (\<lambda>x. g x = g k) (sort_key g (sort_key f xs)))"
    by (auto intro: filter_cong)
  also have "\<dots> = filter (\<lambda>x. f x = f k) (filter (\<lambda>x. g x = g k) (sort_key f xs))"
    by (simp only: sort_key_stable)
  also have "\<dots> = filter (\<lambda>x. g x = g k) (filter (\<lambda>x. f x = f k) (sort_key f xs))"
    by (auto intro: filter_cong)
  also have "\<dots> = filter (\<lambda>x. g x = g k) (filter (\<lambda>x. f x = f k) xs)"
    by (simp only: sort_key_stable)
  also have "\<dots> = filter (\<lambda>x. (g k, f k) = (g x, f x)) xs"
    by (auto intro: filter_cong)
  finally show "filter (\<lambda>x. (g k, f k) = (g x, f x)) (sort_key g (sort_key f xs))
        = filter (\<lambda>x. (g k, f k) = (g x, f x)) xs" .
qed

lemma hd_sort_key_least:
  assumes "xs \<noteq> []" "x \<in> set xs"
  shows "f (hd (sort_key f xs)) \<le> f x"
proof -
  from assms(1) have "sort_key f xs \<noteq> []" by (metis length_sort length_0_conv)
  then obtain y ys where s: "sort_key f xs = y # ys" by (cases "sort_key f xs") auto
  have "sorted (map f (sort_key f xs))" by simp
  with s have "\<forall>z\<in>set (y # ys). f y \<le> f z" by auto
  moreover have "x \<in> set (y # ys)" using assms(2) s by (metis set_sort)
  ultimately show ?thesis using s by auto
qed


lemma argwhere_diff_attempts:
  "c \<in> set (argwhere s (Build_diff E b cur)) \<Longrightarrow> attempts b c \<noteq> 0"
  by (cases "embed b") (auto simp: argwhere_def Build_diff_def Let_def fold_conj_pairs)

text \<open>
  C2: for every non-empty diff mask and every agent position, the target-cell selection
  returns the first element of the masked cells after four stable sorts applied in this
  order: Manhattan distance to the agent ascending, attempts descending (the wrapping
  uint8 negation orders the masked cells by attempts descending, as none of them is 0),
  y ascending, cells under the agent's foot or head last. That element is the first of
  the masked cells under one stable sort by the lexicographic key (self-occupied, y,
  attempts descending, distance): a masked cell that is least under that key.
\<close>

theorem get_next_target_order:
  fixes E :: "('w, 'm) env" and b :: build and cur :: grid and rel :: xyz
  defines "cs \<equiv> argwhere (shape (schematic b)) (Build_diff E b cur)"
  defines "occ \<equiv> \<lambda>yzx. yzx = to_yzx rel \<or> yzx = addv (to_yzx rel) (1, 0, 0)"
  defines "dist \<equiv> \<lambda>yzx. manhat_dist yzx (to_yzx rel)"
  defines "tgt \<equiv> hd (sort_key (\<lambda>c. (occ c, fst c, - uint (attempts b c), dist c)) cs)"
  assumes "cs \<noteq> []"
  shows "get_next_target b rel cs =
           Inr (hd (sort_key occ (sort_key fst (sort_key (\<lambda>c. - uint (attempts b c))
                  (sort_key dist cs)))))
    \<and> get_next_target b rel cs = Inr tgt
    \<and> tgt \<in> set cs
    \<and> (\<forall>c\<in>set cs. (occ tgt, fst tgt, - uint (attempts b tgt), dist tgt)
                        \<le> (occ c, fst c, - uint (attempts b c), dist c))"
proof -
  have w: "sort_key (\<lambda>c. - attempts b c) (sort_key dist cs)
           = sort_key (\<lambda>c. - uint (attempts b c)) (sort_key dist cs)"
  proof (rule sort_key_cong_order)
    fix x y assume "x \<in> set (sort_key dist cs)" "y \<in> set (sort_key dist cs)"
    then have "attempts b x \<noteq> 0" "attempts b y \<noteq> 0"
      by (auto simp: cs_def dest: argwhere_diff_attempts)
    then show "- attempts b x \<le> - attempts b y \<longleftrightarrow> - uint (attempts b x) \<le> - uint (attempts b y)"
      by (rule neg_u8_le)
  qed
  let ?four = "sort_key occ (sort_key fst (sort_key (\<lambda>c. - uint (attempts b c)) (sort_key dist cs)))"
  have four: "?four = sort_key (\<lambda>c. (occ c, fst c, - uint (attempts b c), dist c)) cs"
    by (simp only: sort_key_twice)
  have "length ?four = length cs" by simp
  with assms(5) have ne: "?four \<noteq> []" by (simp only: length_0_conv [symmetric]) simp
  have g: "get_next_target b rel cs = Inr (hd ?four)"
    using ne w by (simp add: get_next_target_def Let_def occ_def dist_def split: list.split)
  have "sort_key (\<lambda>c. (occ c, fst c, - uint (attempts b c), dist c)) cs \<noteq> []"
    using ne four by simp
  then have "tgt \<in> set (sort_key (\<lambda>c. (occ c, fst c, - uint (attempts b c), dist c)) cs)"
    unfolding tgt_def by (rule hd_in_set)
  then have m: "tgt \<in> set cs" by simp
  have l: "\<forall>c\<in>set cs. (occ tgt, fst tgt, - uint (attempts b tgt), dist tgt)
                        \<le> (occ c, fst c, - uint (attempts b c), dist c)"
    unfolding tgt_def
    using hd_sort_key_least [OF assms(5), of _ "\<lambda>c. (occ c, fst c, - uint (attempts b c), dist c)"]
    by blast
  from g four m l show ?thesis by (simp add: tgt_def)
qed


lemma upt_3: "[0..<3] = [0, 1, 2]"
  by (simp add: eval_nat_numeral)

theorem get_next_target_order_witness:
  "argwhere (shape (schematic (sim_build [((0, 64, 0), (1, 0)), ((1, 64, 0), (1, 0)),
        ((2, 64, 0), (1, 0))] (0, 64, 0) False)))
     (Build_diff (sim_env no_route)
        (sim_build [((0, 64, 0), (1, 0)), ((1, 64, 0), (1, 0)), ((2, 64, 0), (1, 0))]
           (0, 64, 0) False)
        (Build_current (sim_env no_route)
           (sim_build [((0, 64, 0), (1, 0)), ((1, 64, 0), (1, 0)), ((2, 64, 0), (1, 0))]
              (0, 64, 0) False)
           (sim_agent (0, 64, 0) []) (0, 64, 0)))
     = [(0, 0, 0), (0, 0, 1), (0, 0, 2)]
   \<and> get_next_target
       (sim_build [((0, 64, 0), (1, 0)), ((1, 64, 0), (1, 0)), ((2, 64, 0), (1, 0))]
          (0, 64, 0) False)
       (0, 0, 0) [(0, 0, 0), (0, 0, 1), (0, 0, 2)]
     = Inr (0, 0, 1)"
proof -
  let ?b = "sim_build [((0, 64, 0), (1, 0)), ((1, 64, 0), (1, 0)), ((2, 64, 0), (1, 0))]
              (0, 64, 0) False"
  let ?cur = "Build_current (sim_env no_route) ?b (sim_agent (0, 64, 0) []) (0, 64, 0)"
  have cs: "argwhere (shape (schematic ?b)) (Build_diff (sim_env no_route) ?b ?cur)
            = [(0, 0, 0), (0, 0, 1), (0, 0, 2)]"
    by (simp add: sim_eval upt_3)
  have att: "\<And>c. attempts ?b c = 3" by (simp add: sim_eval)
  from get_next_target_order [of ?b "sim_env no_route" ?cur "(0, 0, 0)"]
  have "get_next_target ?b (0, 0, 0) [(0, 0, 0), (0, 0, 1), (0, 0, 2)] = Inr (0, 0, 1)"
    unfolding cs by (simp add: att less_eq_prod_def)
  with cs show ?thesis by simp
qed

subsection \<open>C10: Build.undo\<close>

lemma save_undo_state_old [simp]: "\<exists>l. old_blocks_list (save_undo_state b cur org) = Some l"
  by (simp add: save_undo_state_def Let_def split: option.split sum.split)

lemma Build_finish_old [simp]:
  "old_blocks_list (fst (state_of (Build_finish E b ag))) = old_blocks_list b"
  by (simp add: Build_finish_def Let_def split: option.split list.split prod.split)

lemma place_target_old [simp]: "old_blocks_list (fst (place_target E b ag i tgt)) = old_blocks_list b"
  by (simp add: place_target_def Let_def)

lemma count_attempt_old [simp]: "old_blocks_list (fst (count_attempt b ag c)) = old_blocks_list b"
  by (simp add: count_attempt_def Let_def)

lemma step_any_dir_old [simp]:
  "old_blocks_list (fst (state_of (step_any_dir E b ag))) = old_blocks_list b"
  by (simp add: step_any_dir_def Let_def split: list.split prod.split)

lemma Build_place_old [simp]:
  "old_blocks_list (fst (state_of (Build_place E b ag c i ci tgt))) = old_blocks_list b"
  by (simp add: Build_place_def Let_def)

lemma Build_target_old [simp]:
  "old_blocks_list (fst (state_of (Build_target E b ag org cur diff))) = old_blocks_list b"
  by (simp add: Build_target_def Let_def split: sum.split)

lemma Build_act_old [simp]:
  "old_blocks_list (fst (state_of (Build_act E b ag org cur diff))) = old_blocks_list b"
  by (simp add: Build_act_def Let_def split: sum.split)












end
